theory Spec2Isabelle
  imports Main
begin

section \<open>JavaScript arrays and the matrix helpers of GeminiMatrix\<close>

text \<open>
  A JavaScript array slot holds a value or \<open>undefined\<close>; the helpers test slots with
  \<open>!= undefined\<close>, which \<open>null\<close> fails as well, so both are the cell \<open>None\<close>.
  Indices and lengths are JavaScript numbers with integer values (the tool schema
  declares the indices INTEGER): they are integers here. A JavaScript number is an IEEE
  double, which holds every integer up to \<open>2^53\<close> in absolute value: the sums that
  \<open>resolve_index\<close> computes from an index of any size are rounded
  (\<open>round_double\<close>), while the counters of the loops count in integers.
\<close>

type_synonym 'a cell = "'a option"
type_synonym 'a row = "'a cell list"
type_synonym 'a Matrix = "'a row list"

datatype error = TypeError | SyntaxError | DOMException

text \<open>Reading \<open>xs[i]\<close>: \<open>None\<close> is the \<open>undefined\<close> JavaScript gives out of range.\<close>

definition at :: "'a list \<Rightarrow> int \<Rightarrow> 'a option" where
  "at xs i = (if 0 \<le> i \<and> i < int (length xs) then Some (xs ! nat i) else None)"

text \<open>Reading a cell \<open>row[c]\<close> of an existing row.\<close>

definition cell_at :: "'a row \<Rightarrow> int \<Rightarrow> 'a cell" where
  "cell_at row c = (case at row c of None \<Rightarrow> None | Some x \<Rightarrow> x)"

text \<open>
  Writing \<open>row[c] = x\<close>: in range the slot is replaced; beyond the end the array grows,
  the slots in between being holes; a negative \<open>c\<close> sets a property that is no array
  element, so the slots stay as they are.
\<close>

definition write_cell :: "'a row \<Rightarrow> int \<Rightarrow> 'a \<Rightarrow> 'a row" where
  "write_cell row c x =
     (if c < 0 then row
      else if c < int (length row) then row[nat c := Some x]
      else row @ replicate (nat c - length row) None @ [Some x])"

text \<open>
  The double nearest to an integer, a tie going to the even mantissa: below \<open>2^53\<close> in
  absolute value every integer is a double; from there on the doubles are the multiples of
  the power of two that leaves 53 bits. (No sum of a length and a finite index reaches
  the range where a double overflows.)
\<close>

function bit_length :: "int \<Rightarrow> nat" where
  "bit_length n = (if n \<le> 0 then 0 else Suc (bit_length (n div 2)))"
  by pat_completeness auto
termination
  by (relation "measure nat") auto

declare bit_length.simps [simp del]

definition round_to :: "int \<Rightarrow> int \<Rightarrow> int" where
  "round_to ulp a =
     (if 2 * (a mod ulp) < ulp \<or> (2 * (a mod ulp) = ulp \<and> even (a div ulp))
      then a div ulp else a div ulp + 1) * ulp"

definition round_double :: "int \<Rightarrow> int" where
  "round_double x =
     (if \<bar>x\<bar> < 2 ^ 53 then x
      else sgn x * round_to (2 ^ (bit_length \<bar>x\<bar> - 53)) \<bar>x\<bar>)"

text \<open>\<open>length + index + 1\<close> is two additions, each rounded.\<close>

definition resolve_index :: "int \<Rightarrow> int \<Rightarrow> int" where
  "resolve_index index len =
     (if index < 0 then round_double (round_double (len + index) + 1) else index)"

subsection \<open>selectMatrixBlock\<close>

text \<open>
  The inner loop pushes \<open>matrix[rowIndex][colIndex]\<close>; where \<open>matrix[rowIndex]\<close> is
  \<open>undefined\<close> the read throws a TypeError, which nothing in the function catches.
\<close>

function selectCols :: "'a Matrix \<Rightarrow> int \<Rightarrow> int \<Rightarrow> int \<Rightarrow> 'a row \<Rightarrow> error + 'a row" where
  "selectCols matrix rowIndex colIndex newEndCol newRow =
     (if colIndex < newEndCol then
        (case at matrix rowIndex of
           None \<Rightarrow> Inl TypeError
         | Some row \<Rightarrow>
             selectCols matrix rowIndex (colIndex + 1) newEndCol (newRow @ [cell_at row colIndex]))
      else Inr newRow)"
  by pat_completeness auto
termination
  by (relation "measure (\<lambda>(m, r, c, ec, acc). nat (ec - c))") auto

declare selectCols.simps [simp del]

function selectRows ::
  "'a Matrix \<Rightarrow> int \<Rightarrow> int \<Rightarrow> int \<Rightarrow> int \<Rightarrow> 'a Matrix \<Rightarrow> error + 'a Matrix" where
  "selectRows matrix rowIndex newEndRow newStartCol newEndCol result =
     (if rowIndex < newEndRow then
        (case selectCols matrix rowIndex newStartCol newEndCol [] of
           Inl e \<Rightarrow> Inl e
         | Inr newRow \<Rightarrow>
             selectRows matrix (rowIndex + 1) newEndRow newStartCol newEndCol (result @ [newRow]))
      else Inr result)"
  by pat_completeness auto
termination
  by (relation "measure (\<lambda>(m, r, er, sc, ec, acc). nat (er - r))") auto

declare selectRows.simps [simp del]

definition selectMatrixBlock ::
  "'a Matrix \<Rightarrow> int \<Rightarrow> int \<Rightarrow> int \<Rightarrow> int \<Rightarrow> error + 'a Matrix" where
  "selectMatrixBlock matrix startRow startCol endRow endCol =
     (let newStartRow = resolve_index startRow (int (length matrix));
          newStartCol = resolve_index startCol (int (length matrix));
          newEndRow = resolve_index endRow (int (length matrix));
          newEndCol = resolve_index endCol (int (length matrix))
      in selectRows matrix newStartRow newEndRow newStartCol newEndCol [])"

subsection \<open>setMatrixBlock\<close>

text \<open>
  The value matrix comes from the tool call's JSON arguments: a row of it, or a cell of a
  row, may be \<open>null\<close>, and the function skips those (\<open>!= undefined\<close>). The
  assignment \<open>cloned[rowIndex][colIndex] = x\<close> throws a TypeError where
  \<open>cloned[rowIndex]\<close> is \<open>undefined\<close>; the \<open>catch\<close> returns \<open>cloned\<close> as it is at
  that moment, so the exceptional result carries the matrix. The parameter \<open>value\<close>
  of the source is \<open>val\<close> here.
\<close>

type_synonym 'a ValueMatrix = "'a row option list"

function setCols ::
  "'a Matrix \<Rightarrow> int \<Rightarrow> int \<Rightarrow> int \<Rightarrow> int \<Rightarrow> 'a row \<Rightarrow> (error \<times> 'a Matrix) + 'a Matrix" where
  "setCols cloned rowIndex colIndex newEndCol newStartCol vrow =
     (if colIndex < newEndCol then
        (case cell_at vrow (colIndex - newStartCol) of
           None \<Rightarrow> setCols cloned rowIndex (colIndex + 1) newEndCol newStartCol vrow
         | Some x \<Rightarrow>
             (case at cloned rowIndex of
                None \<Rightarrow> Inl (TypeError, cloned)
              | Some row \<Rightarrow>
                  setCols (cloned[nat rowIndex := write_cell row colIndex x])
                    rowIndex (colIndex + 1) newEndCol newStartCol vrow))
      else Inr cloned)"
  by pat_completeness auto
termination
  by (relation "measure (\<lambda>(m, r, c, ec, sc, v). nat (ec - c))") auto

declare setCols.simps [simp del]

function setRows ::
  "'a Matrix \<Rightarrow> int \<Rightarrow> int \<Rightarrow> int \<Rightarrow> int \<Rightarrow> 'a ValueMatrix \<Rightarrow> (error \<times> 'a Matrix) + 'a Matrix"
  where
  "setRows cloned rowIndex newEndRow newStartRow newStartCol val =
     (if rowIndex < newEndRow then
        (case cell_at val (rowIndex - newStartRow) of
           None \<Rightarrow> setRows cloned (rowIndex + 1) newEndRow newStartRow newStartCol val
         | Some vrow \<Rightarrow>
             (case setCols cloned rowIndex newStartCol (newStartCol + int (length vrow))
                     newStartCol vrow of
                Inl thrown \<Rightarrow> Inl thrown
              | Inr cloned' \<Rightarrow>
                  setRows cloned' (rowIndex + 1) newEndRow newStartRow newStartCol val))
      else Inr cloned)"
  by pat_completeness auto
termination
  by (relation "measure (\<lambda>(m, r, er, sr, sc, v). nat (er - r))") auto

declare setRows.simps [simp del]

definition setMatrixBlock :: "'a Matrix \<Rightarrow> int \<Rightarrow> int \<Rightarrow> 'a ValueMatrix \<Rightarrow> 'a Matrix" where
  "setMatrixBlock matrix startRow startCol val =
     (let newStartRow = resolve_index startRow (int (length matrix));
          newStartCol = resolve_index startCol (int (length matrix));
          newEndRow = newStartRow + int (length val);
          cloned = map (\<lambda>row. row) matrix
      in case setRows cloned newStartRow newEndRow newStartRow newStartCol val of
           Inl (exp, cloned') \<Rightarrow> cloned'
         | Inr cloned' \<Rightarrow> cloned')"

subsection \<open>setMatrixBlock on a store of row arrays\<close>

text \<open>
  Whether the argument is mutated depends on which array objects the writes reach. Here
  the row arrays live in a store, an address being an index into it; a matrix is the list
  of the addresses of its rows (the function never assigns to a slot of an outer array).
  \<open>row.slice()\<close> allocates a copy of the row at a new address.
\<close>

type_synonym addr = nat
type_synonym 'a store = "'a row list"

definition deref :: "'a store \<Rightarrow> addr list \<Rightarrow> 'a Matrix" where
  "deref h m = map (\<lambda>a. h ! a) m"

fun clone_rows :: "'a store \<Rightarrow> addr list \<Rightarrow> 'a store \<times> addr list" where
  "clone_rows h [] = (h, [])"
| "clone_rows h (a # as) =
     (let (h', as') = clone_rows (h @ [h ! a]) as in (h', length h # as'))"

function setCols_store ::
  "'a store \<Rightarrow> addr list \<Rightarrow> int \<Rightarrow> int \<Rightarrow> int \<Rightarrow> int \<Rightarrow> 'a row \<Rightarrow> (error \<times> 'a store) + 'a store"
  where
  "setCols_store h cloned rowIndex colIndex newEndCol newStartCol vrow =
     (if colIndex < newEndCol then
        (case cell_at vrow (colIndex - newStartCol) of
           None \<Rightarrow> setCols_store h cloned rowIndex (colIndex + 1) newEndCol newStartCol vrow
         | Some x \<Rightarrow>
             (case at cloned rowIndex of
                None \<Rightarrow> Inl (TypeError, h)
              | Some a \<Rightarrow>
                  setCols_store (h[a := write_cell (h ! a) colIndex x]) cloned
                    rowIndex (colIndex + 1) newEndCol newStartCol vrow))
      else Inr h)"
  by pat_completeness auto
termination
  by (relation "measure (\<lambda>(h, m, r, c, ec, sc, v). nat (ec - c))") auto

declare setCols_store.simps [simp del]

function setRows_store ::
  "'a store \<Rightarrow> addr list \<Rightarrow> int \<Rightarrow> int \<Rightarrow> int \<Rightarrow> int \<Rightarrow> 'a ValueMatrix \<Rightarrow>
     (error \<times> 'a store) + 'a store" where
  "setRows_store h cloned rowIndex newEndRow newStartRow newStartCol val =
     (if rowIndex < newEndRow then
        (case cell_at val (rowIndex - newStartRow) of
           None \<Rightarrow> setRows_store h cloned (rowIndex + 1) newEndRow newStartRow newStartCol val
         | Some vrow \<Rightarrow>
             (case setCols_store h cloned rowIndex newStartCol
                     (newStartCol + int (length vrow)) newStartCol vrow of
                Inl thrown \<Rightarrow> Inl thrown
              | Inr h' \<Rightarrow>
                  setRows_store h' cloned (rowIndex + 1) newEndRow newStartRow newStartCol val))
      else Inr h)"
  by pat_completeness auto
termination
  by (relation "measure (\<lambda>(h, m, r, er, sr, sc, v). nat (er - r))") auto

declare setRows_store.simps [simp del]

definition setMatrixBlock_store ::
  "'a store \<Rightarrow> addr list \<Rightarrow> int \<Rightarrow> int \<Rightarrow> 'a ValueMatrix \<Rightarrow> 'a store \<times> addr list" where
  "setMatrixBlock_store h matrix startRow startCol val =
     (let newStartRow = resolve_index startRow (int (length matrix));
          newStartCol = resolve_index startCol (int (length matrix));
          newEndRow = newStartRow + int (length val);
          (h1, cloned) = clone_rows h matrix
      in case setRows_store h1 cloned newStartRow newEndRow newStartRow newStartCol val of
           Inl (exp, h') \<Rightarrow> (h', cloned)
         | Inr h' \<Rightarrow> (h', cloned))"

subsection \<open>Blocks of a matrix\<close>

text \<open>
  \<open>is_block m sr sc er ec res\<close>: \<open>res\<close> is the block of \<open>m\<close> with rows \<open>sr\<close> to
  \<open>er\<close> and columns \<open>sc\<close> to \<open>ec\<close>, both ends exclusive.
\<close>

definition is_block :: "'a Matrix \<Rightarrow> int \<Rightarrow> int \<Rightarrow> int \<Rightarrow> int \<Rightarrow> 'a Matrix \<Rightarrow> bool" where
  "is_block m sr sc er ec res \<longleftrightarrow>
     length res = nat (er - sr) \<and>
     (\<forall>i\<in>{..<nat (er - sr)}.
        length (res ! i) = nat (ec - sc) \<and>
        (\<forall>j\<in>{..<nat (ec - sc)}. res ! i ! j = m ! (nat sr + i) ! (nat sc + j)))"

text \<open>
  \<open>value_cell val i j\<close> reads \<open>val[i][j]\<close> the way the guards of setMatrixBlock see
  it: \<open>None\<close> where the row or the cell is missing, \<open>null\<close> or \<open>undefined\<close>.
\<close>

definition value_cell :: "'a ValueMatrix \<Rightarrow> int \<Rightarrow> int \<Rightarrow> 'a cell" where
  "value_cell val i j = (case cell_at val i of None \<Rightarrow> None | Some vrow \<Rightarrow> cell_at vrow j)"

text \<open>The store a loop ends with, and the matrix its addresses stand for.\<close>

definition store_of :: "(error \<times> 'a store) + 'a store \<Rightarrow> 'a store" where
  "store_of res = (case res of Inl (e, h) \<Rightarrow> h | Inr h \<Rightarrow> h)"

definition view ::
  "addr list \<Rightarrow> (error \<times> 'a store) + 'a store \<Rightarrow> (error \<times> 'a Matrix) + 'a Matrix" where
  "view cl res = (case res of Inl (e, h) \<Rightarrow> Inl (e, deref h cl) | Inr h \<Rightarrow> Inr (deref h cl))"

section \<open>Tool calls, client calls and timers\<close>

text \<open>
  The values the components hand to the client are JavaScript objects (\<open>Dictionary\<close>);
  \<open>undefined\<close> and \<open>null\<close> are both \<open>JNull\<close>.
\<close>

datatype json =
    JNull
  | JBool bool
  | JNum int
  | JStr string
  | JArr "json list"
  | JObj "(string \<times> json) list"

text \<open>
  The arguments of a function call are an object, whose properties the handlers read
  after a cast (\<open>fc.args as {...}\<close>) that nothing checks at run time. The fields are the
  properties that the two handlers read, with the types of the casts; a field is
  \<open>None\<close> where the object has no such property, so that reading it gives
  \<open>undefined\<close>. \<open>arg_value\<close> is \<open>args.value\<close>. The declaration of \<open>writeTo\<close>
  names its third parameter \<open>appendFile\<close>, while the handler reads \<open>args.append\<close>:
  \<open>arg_append\<close> is the latter.
\<close>

record fcargs =
  arg_htmlText :: "string option"
  arg_fileName :: "string option"
  arg_contents :: "string option"
  arg_append :: "bool option"
  arg_prompt :: "string option"
  arg_startRow :: "int option"
  arg_startCol :: "int option"
  arg_endRow :: "int option"
  arg_endCol :: "int option"
  arg_value :: "string ValueMatrix option"

text \<open>The empty object \<open>{}\<close>.\<close>

definition no_args :: fcargs where
  "no_args =
     \<lparr>arg_htmlText = None, arg_fileName = None, arg_contents = None, arg_append = None,
      arg_prompt = None, arg_startRow = None, arg_startCol = None, arg_endRow = None,
      arg_endCol = None, arg_value = None\<rparr>"

record LiveFunctionCall =
  fc_id :: string
  fc_name :: string
  fc_args :: fcargs

record ToolCall =
  functionCalls :: "LiveFunctionCall list"

record LiveFunctionResponse =
  response :: json
  fr_id :: string

datatype part = TextPart string

text \<open>
  The calls the components make on the client object: \<open>client.sendToolResponse\<close> with
  the list \<open>functionResponses\<close>, and \<open>client.send\<close> with a list of parts and no second
  argument.
\<close>

datatype client_call =
    SendToolResponseCall "LiveFunctionResponse list"
  | SendCall "part list"

text \<open>
  \<open>setTimeout(callback, delay)\<close> registers the callback and returns; the callback runs
  once the delay has passed, never inside the call that registers it. The state of the
  event loop is the clock, the registered callbacks with the time each is due, and the
  client calls issued so far. Each callback of the helpers issues one client call, so a
  callback is modelled by that call.
\<close>

record loop =
  now :: nat
  timers :: "(nat \<times> client_call) list"
  issued :: "client_call list"

definition idle :: loop where
  "idle = \<lparr>now = 0, timers = [], issued = []\<rparr>"

definition setTimeout :: "client_call \<Rightarrow> nat \<Rightarrow> loop \<Rightarrow> loop" where
  "setTimeout callback delay s = s\<lparr>timers := timers s @ [(now s + delay, callback)]\<rparr>"

text \<open>
  The clock moves to \<open>t\<close>: the callbacks due by then run, the earliest first and those
  due at the same time in the order of their registration.
\<close>

definition advance :: "nat \<Rightarrow> loop \<Rightarrow> loop" where
  "advance t s =
     s\<lparr>now := max (now s) t,
       timers := filter (\<lambda>e. \<not> fst e \<le> t) (timers s),
       issued := issued s @ map snd (sort_key fst (filter (\<lambda>e. fst e \<le> t) (timers s)))\<rparr>"

text \<open>Time passes until no callback is left.\<close>

definition flush :: "loop \<Rightarrow> loop" where
  "flush s = advance (fold max (map fst (timers s)) (now s)) s"

subsection \<open>The helpers sendToolResponse and sendUserMessage\<close>

text \<open>
  Both components define sendToolResponse with the same body and the delay 200; the
  delay is a parameter here, so that its influence can be stated. The callback maps
  over \<open>toolCall.functionCalls\<close>, the whole batch, and gives every entry the same
  response.
\<close>

definition functionResponses :: "ToolCall \<Rightarrow> json \<Rightarrow> LiveFunctionResponse list" where
  "functionResponses toolCall resp =
     map (\<lambda>fc. \<lparr>response = resp, fr_id = fc_id fc\<rparr>) (functionCalls toolCall)"

definition sendToolResponse_after :: "nat \<Rightarrow> ToolCall \<Rightarrow> json \<Rightarrow> loop \<Rightarrow> loop" where
  "sendToolResponse_after delay toolCall resp s =
     setTimeout (SendToolResponseCall (functionResponses toolCall resp)) delay s"

definition sendToolResponse :: "ToolCall \<Rightarrow> json \<Rightarrow> loop \<Rightarrow> loop" where
  "sendToolResponse = sendToolResponse_after 200"

definition sendUserMessage_after :: "nat \<Rightarrow> string \<Rightarrow> loop \<Rightarrow> loop" where
  "sendUserMessage_after delay text s = setTimeout (SendCall [TextPart text]) delay s"

definition sendUserMessage :: "string \<Rightarrow> loop \<Rightarrow> loop" where
  "sendUserMessage = sendUserMessage_after 200"

text \<open>
  A run of a component as far as the helpers go: calls of the two helpers, with time
  passing in between.
\<close>

datatype step =
    ToolResponseStep ToolCall json
  | UserMessageStep string
  | Wait nat

fun run :: "nat \<Rightarrow> step list \<Rightarrow> loop \<Rightarrow> loop" where
  "run delay [] s = s"
| "run delay (ToolResponseStep toolCall resp # steps) s =
     run delay steps (sendToolResponse_after delay toolCall resp s)"
| "run delay (UserMessageStep text # steps) s =
     run delay steps (sendUserMessage_after delay text s)"
| "run delay (Wait n # steps) s = run delay steps (advance (now s + n) s)"

text \<open>The client calls that the helper calls of a run ask for, in the order of the run.\<close>

fun calls_of :: "step list \<Rightarrow> client_call list" where
  "calls_of [] = []"
| "calls_of (ToolResponseStep toolCall resp # steps) =
     SendToolResponseCall (functionResponses toolCall resp) # calls_of steps"
| "calls_of (UserMessageStep text # steps) = SendCall [TextPart text] # calls_of steps"
| "calls_of (Wait n # steps) = calls_of steps"

subsection \<open>The timer queue\<close>

text \<open>
  The invariant of the timer queue when every registration uses the same delay: the
  callbacks are registered in the order in which they are due, and none is due later than
  a callback registered now would be.
\<close>

definition timers_ok :: "nat \<Rightarrow> loop \<Rightarrow> bool" where
  "timers_ok delay s \<longleftrightarrow>
     sorted (map fst (timers s)) \<and> list_all (\<lambda>e. fst e \<le> now s + delay) (timers s)"

section \<open>Function declarations and configurations\<close>

datatype SchemaType = STRING | NUMBER | INTEGER | BOOLEAN | ARRAY | OBJECT

text \<open>
  A parameter schema as the declarations write it: a primitive type, an array with the
  schema of its items, or an object with its properties and the list \<open>required\<close>
  (absent in one declaration); the string is the description where there is one.
\<close>

datatype schema =
    SchemaPrim SchemaType "string option"
  | SchemaArray schema "string option"
  | SchemaObject "(string \<times> schema) list" "string list option"

record FunctionDeclaration =
  decl_name :: string
  description :: string
  parameters :: schema

datatype tool =
    GoogleSearch
  | CodeExecution
  | FunctionDeclarations "FunctionDeclaration list"

text \<open>
  The object passed to \<open>setConfig\<close>. \<open>voiceName\<close> is
  \<open>speechConfig.voiceConfig.prebuiltVoiceConfig.voiceName\<close>, and
  \<open>systemInstruction_text\<close> the text of the single part of \<open>systemInstruction.parts\<close>.
\<close>

record GenerationConfig =
  responseModalities :: string
  voiceName :: "string option"
  maxOutputTokens :: "int option"

record LiveConfig =
  model :: string
  generationConfig :: GenerationConfig
  systemInstruction_text :: string
  tools :: "tool list"

subsection \<open>Memento\<close>

definition renderHtmlDeclaration :: FunctionDeclaration where
  "renderHtmlDeclaration =
     \<lparr>decl_name = ''render_html'',
      description =
        ''Displays HTML on the screen.'',
      parameters = SchemaObject
        [(''htmlText'',
          SchemaPrim STRING
            (Some (''HTML object in string format'')))]
        (Some [''htmlText''])\<rparr>"

definition lsDeclaration :: FunctionDeclaration where
  "lsDeclaration =
     \<lparr>decl_name = ''ls'',
      description =
        ''Lists content in current working directory. Result is a dictionary whe'' @
        ''re the 'files' key contains a list of dictionaries representing files.'' @
        '' Each dictionary has a 'name' and a 'type' ('file' or 'directory') fie'' @
        ''ld.'',
      parameters = SchemaObject
        [(''verbose'',
          SchemaPrim BOOLEAN
            (Some (''Should the output be verbose.'')))]
        (Some [])\<rparr>"

definition writeToDeclaration :: FunctionDeclaration where
  "writeToDeclaration =
     \<lparr>decl_name = ''writeTo'',
      description =
        ''Writes text into a text file'',
      parameters = SchemaObject
        [(''fileName'',
          SchemaPrim STRING
            (Some (''Name of the file to write to. Will be created if it doesn't exist.''))),
         (''contents'',
          SchemaPrim STRING
            (Some (''Contents to write into the file.''))),
         (''appendFile'',
          SchemaPrim BOOLEAN
            (Some (''Should new content be appended to existing content. Defaults to true.'')))]
        (Some [''contents'', ''fileName''])\<rparr>"

definition readTxtFileDeclaration :: FunctionDeclaration where
  "readTxtFileDeclaration =
     \<lparr>decl_name = ''readTxtFile'',
      description =
        ''Reads txt file and returns content as dictionary with 'contents' field'' @
        '' that contains the text string.'',
      parameters = SchemaObject
        [(''fileName'',
          SchemaPrim STRING
            (Some (''Name of the file to read.'')))]
        (Some [''fileName''])\<rparr>"

definition systemInstruction :: string where
  \<open>systemInstruction =
     ''\<newline>'' @
     ''* The default background is dark, so make sure that you choose appropriate colou'' @
     ''rs.\<newline>'' @
     ''* Render responses in html whenever asked to show or render something. \<newline>''\<close>

definition memento_config :: LiveConfig where
  "memento_config =
     \<lparr>model = ''models/gemini-2.0-flash-exp'',
      generationConfig =
        \<lparr>responseModalities = ''text'', voiceName = Some ''Aoede'', maxOutputTokens = None\<rparr>,
      systemInstruction_text = systemInstruction,
      tools =
        [GoogleSearch,
         FunctionDeclarations
           [renderHtmlDeclaration, lsDeclaration, writeToDeclaration, readTxtFileDeclaration]]\<rparr>"

subsection \<open>GeminiMatrix\<close>

definition getDataBlockDecl :: FunctionDeclaration where
  "getDataBlockDecl =
     \<lparr>decl_name = ''getDataBlock'',
      description =
        ''gets a contiguous rectangular block of the data matrix. The result wit'' @
        ''h be in a dictionary with a single key `data` which contains a list of'' @
        '' lists of strings.'',
      parameters = SchemaObject
        [(''startRow'',
          SchemaPrim INTEGER
            (Some (''The index of the starting row to return.''))),
         (''startCol'',
          SchemaPrim INTEGER
            (Some (''The index of the starting column to return.''))),
         (''endRow'',
          SchemaPrim INTEGER
            (Some (''The index of the end row to return, exclusive. Use -1 to return up unt'' @
                  ''il (including) the last row.''))),
         (''endCol'',
          SchemaPrim INTEGER
            (Some (''The index of the end column to return, exclusive. Use -1 to return up '' @
                  ''until (including) the last column.'')))]
        (Some [''startRow'', ''startCol'', ''endRow'', ''endCol''])\<rparr>"

definition getStyleBlockDecl :: FunctionDeclaration where
  "getStyleBlockDecl =
     \<lparr>decl_name = ''getStyleBlock'',
      description =
        ''gets a contiguous rectangular block of the CSS style matrix that contr'' @
        ''ols the style of each cell. The result with be in a dictionary with a '' @
        ''single key `styles` which contains a list of lists of strings. Each st'' @
        ''ring is a JSON object representing the style.'',
      parameters = SchemaObject
        [(''startRow'',
          SchemaPrim INTEGER
            (Some (''The index of the starting row to return.''))),
         (''startCol'',
          SchemaPrim INTEGER
            (Some (''The index of the starting column to return.''))),
         (''endRow'',
          SchemaPrim INTEGER
            (Some (''The index of the end row to return, exclusive. Use -1 to return up unt'' @
                  ''il (including) the last row.''))),
         (''endCol'',
          SchemaPrim INTEGER
            (Some (''The index of the end column to return, exclusive. Use -1 to return up '' @
                  ''until (including) the last column.'')))]
        (Some [''startRow'', ''startCol'', ''endRow'', ''endCol''])\<rparr>"

definition setDataBlockDecl :: FunctionDeclaration where
  "setDataBlockDecl =
     \<lparr>decl_name = ''setDataBlock'',
      description =
        ''Sets a contiguous rectangular block of the data matrix with the values'' @
        '' of a sub matrix.'',
      parameters = SchemaObject
        [(''startRow'',
          SchemaPrim INTEGER
            (Some (''The index of the starting row to fill.''))),
         (''startCol'',
          SchemaPrim INTEGER
            (Some (''The index of the starting column to fill.''))),
         (''value'',
          SchemaArray (SchemaArray (SchemaPrim STRING None) None)
            (Some (''The values to fill the contiguous block with. Strings can contain <a> '' @
                  ''tags.'')))]
        (Some [''startRow'', ''startCol'', ''value''])\<rparr>"

definition setStylesBlockDecl :: FunctionDeclaration where
  "setStylesBlockDecl =
     \<lparr>decl_name = ''setStylesBlock'',
      description =
        ''Sets a contiguous rectangular block of the CSS style matrix with the v'' @
        ''alues of a sub matrix.'',
      parameters = SchemaObject
        [(''startRow'',
          SchemaPrim INTEGER
            (Some (''The index of the starting row to fill.''))),
         (''startCol'',
          SchemaPrim INTEGER
            (Some (''The index of the starting column to fill.''))),
         (''value'',
          SchemaArray (SchemaArray (SchemaPrim STRING None) None)
            (Some (''The values to fill the contiguous block with. Each value of the matrix'' @
                  '' should be a JSON object representing the css style for the table cell'' @
                  ''.'')))]
        (Some [''startRow'', ''startCol'', ''value''])\<rparr>"

definition geminiAsAToolDecl :: FunctionDeclaration where
  "geminiAsAToolDecl =
     \<lparr>decl_name = ''gemini'',
      description =
        ''Returns the response from gemini given the prompt. Response is return '' @
        ''as dictionary with a response key that has the model response.'',
      parameters = SchemaObject
        [(''prompt'',
          SchemaPrim STRING
            (Some (''Prompt to be given to the model.'')))]
        None\<rparr>"

definition developer_instruction :: string where
  \<open>developer_instruction =
     ''\<newline>'' @
     ''# General \<newline>'' @
     ''* You are a helpful matrix agent that can change and observe a 10x10 data matrix'' @
     ''.\<newline>'' @
     ''* DO always execute what the user asks, do not ask for confirmation (and do an e'' @
     ''ducated guess if it's unclear). \<newline>'' @
     ''\<newline>'' @
     ''# Matrix Operations\<newline>'' @
     ''* When you do sorting, ignore all empty rows or columns and only sort sections w'' @
     ''ith actual data.\<newline>'' @
     ''* Make sure to load data from the matrix instead of relying on your previous res'' @
     ''ponses and context. The matrix might have been reordered, sorted etc since you l'' @
     ''ast filled it, so you can't rely on initial orderings.\<newline>'' @
     ''* When cells are moved (sorted, moved etc), always assume you need to move both '' @
     ''content and styling.\<newline>'' @
     ''* If you don't know/haven't yet seen specific cells and need to process them bas'' @
     ''ed on their format, analyze the format first. \<newline>'' @
     ''* For example, if you need to parse currency amounts in a column, first print ou'' @
     ''t some dates in the column to see the currency format.\<newline>'' @
     ''* When you add a title row or column, make sure to not overwrite existing conten'' @
     ''t and shift content accordingly. \<newline>'' @
     ''\<newline>'' @
     ''# Parsing strings for python processing\<newline>'' @
     ''* Often you will have extract specific information from strings, such as days, m'' @
     ''onths and years from a date string. ALWAYS first print at least a subset of the '' @
     ''relevant data to figure out what the format is! Don't assume a given format. \<newline>'' @
     ''* For example, when you sort by dates, check the date format and do date extract'' @
     ''ion and conversation based on the pattern you see. \<newline>'' @
     ''* Generally, strings in the cells created by an LLM will have various formats. D'' @
     ''on't assume you can directly string match on these.\<newline>'' @
     ''* \<newline>'' @
     ''# Gemini As A Tool\<newline>'' @
     ''* You have a gemini tool you should use whenever the user asks you to process sp'' @
     ''ecific cells.\<newline>'' @
     ''* For example, if you are to find the sentiment of sentences in the second colum'' @
     ''n and write into the third, process each with gemini and write it out.\<newline>'' @
     ''* Or when you are ask to do something for each cell in a column, and the task re'' @
     ''quires reasoning or gathering factual information, use gemini as a tool! \<newline>'' @
     ''* When using gemini in the inner loop, please update cells as you go so that the'' @
     '' user can see changes right away. \<newline>'' @
     ''* That is, if you are ready to make a change to cell i,j call default_api.setDat'' @
     ''aBlock(startCol=i, endCol=j, startRow=i+1, endRow=j+1, value=[[<newValue]])\<newline>'' @
     ''* So do the default_api.setDataBlock operation in the inner loops, not at the en'' @
     ''d.\<newline>'' @
     ''* Use search as a tool if you are asked for factual information, but NOT for per'' @
     '' cell processing. For cell specific tasks, use MUST USE gemini as a tool!\<newline>'' @
     ''* AVOID CALLING SEARCH TOOL N times for N cells. RATHER CALL GEMINI N times. \<newline>'' @
     ''* In for loops that create new cell values, store results immediately in the mat'' @
     ''rix, on a cell-by-cell basis.\<newline>'' @
     ''* Never use your internal knowledge, always use gemini as a tool if you are aske'' @
     ''d factual questions.\<newline>'' @
     ''\<newline>'' @
     ''# CSS Styling operations\<newline>'' @
     ''* When the user asks for styling, always combine the previous style (retrieve it'' @
     '' using the get methods) with the styles to add, unless the user wants to explici'' @
     ''tly reset styles. \<newline>'' @
     ''* When combining or manipulating JSON style strings, it's best to first parse th'' @
     ''ese into python objects, then manipulate, and the stringify again.\<newline>'' @
     ''* make sure to 'import json' when you work with json strings and objects. Re-imp'' @
     ''ort in each code block. \<newline>'' @
     ''* The empty style is represented as "{}" (notice the double quotes, they are cri'' @
     ''tical).\<newline>'' @
     ''* Note that style changes in the cells overwrite column styles. \<newline>'' @
     ''\<newline>'' @
     ''# Date \<newline>'' @
     ''* The date is Monday 16 December 2024. \<newline>''\<close>

definition matrix_config :: LiveConfig where
  "matrix_config =
     \<lparr>model = ''models/gemini-2.0-flash-exp'',
      generationConfig =
        \<lparr>responseModalities = ''text'', voiceName = Some ''Aoede'',
         maxOutputTokens = Some 5000\<rparr>,
      systemInstruction_text = developer_instruction,
      tools =
        [GoogleSearch,
         FunctionDeclarations
           [getDataBlockDecl, setDataBlockDecl, getStyleBlockDecl, setStylesBlockDecl,
            geminiAsAToolDecl]]\<rparr>"

section \<open>The tool-call handlers\<close>

text \<open>
  A handler runs the callback of \<open>toolCall.functionCalls.forEach\<close> once for each
  function call of the batch, in the order of the batch. The callback is an \<open>async\<close>
  function: a call of it runs up to its first \<open>await\<close> and returns; what follows the
  \<open>await\<close> runs when the awaited promise is fulfilled, which is after the handler has
  returned, and never runs when the promise is rejected. An exception ends the callback
  that throws it (its promise is rejected, and \<open>forEach\<close> drops the promise): the
  callbacks of the other function calls go on.

  What a callback awaits is the promise of one of the helpers
  \<open>listFilesInCurrentFolder\<close>, \<open>writeToFile\<close> and \<open>readTxtFile\<close>, which only await
  the origin-private file system of the browser, or the promise of
  \<open>chatSession.sendMessage\<close> of the second model: when and how it is settled is for
  the browser and the model. A suspended callback is the batch it answers and the
  request it waits for.
\<close>

datatype request =
    ListFilesInCurrentFolder
  | WriteToFile "string option" "string option" bool
  | ReadTxtFile "string option"
  | SendMessage "string option"

text \<open>
  How an awaited promise ends: fulfilled, with the value the callback goes on with (the
  list of files, the text of the file, the text of the model's response), or rejected.
\<close>

datatype settlement = Fulfilled json | Rejected

definition success :: json where
  "success = JObj [(''response'', JObj [(''output'', JObj [(''sucess'', JBool True)])])]"

text \<open>
  What follows the \<open>await\<close> in each case: one call of sendToolResponse. The case
  \<open>writeTo\<close> does not use the value.
\<close>

fun resume :: "ToolCall \<Rightarrow> request \<Rightarrow> json \<Rightarrow> loop \<Rightarrow> loop" where
  "resume toolCall ListFilesInCurrentFolder result s =
     sendToolResponse toolCall (JObj [(''files'', result)]) s"
| "resume toolCall (WriteToFile name contents appending) result s =
     sendToolResponse toolCall success s"
| "resume toolCall (ReadTxtFile name) result s =
     sendToolResponse toolCall (JObj [(''contents'', result)]) s"
| "resume toolCall (SendMessage prompt) text s =
     sendToolResponse toolCall (JObj [(''response'', text)]) s"

text \<open>
  The promise of the \<open>k\<close>-th suspended callback is settled: the callback leaves the
  list, and runs to its end when the promise is fulfilled.
\<close>

definition settle ::
  "nat \<Rightarrow> settlement \<Rightarrow> (ToolCall \<times> request) list \<times> loop \<Rightarrow> (ToolCall \<times> request) list \<times> loop"
  where
  "settle k outcome st =
     (case st of (suspended, s) \<Rightarrow>
        if k < length suspended then
          (take k suspended @ drop (Suc k) suspended,
           (case outcome of
              Rejected \<Rightarrow> s
            | Fulfilled result \<Rightarrow> resume (fst (suspended ! k)) (snd (suspended ! k)) result s))
        else (suspended, s))"

subsection \<open>The handler of Memento\<close>

text \<open>
  The state the handler of Memento works on: the React state \<open>htmlString\<close> (\<open>None\<close>
  is \<open>undefined\<close>), the suspended callbacks, and the event loop with the timers of
  sendToolResponse.
\<close>

record memento =
  htmlString :: "string option"
  msuspended :: "(ToolCall \<times> request) list"
  mloop :: loop

text \<open>
  The callback of Memento for one function call \<open>fc\<close> of the batch \<open>toolCall\<close>, up to
  its first \<open>await\<close>. The \<open>switch\<close> has no default case. The case \<open>ls\<close> does not read
  its arguments; the case \<open>writeTo\<close> passes \<open>true\<close> where \<open>args.append\<close> is
  \<open>undefined\<close>.
\<close>

definition memento_callback :: "ToolCall \<Rightarrow> LiveFunctionCall \<Rightarrow> memento \<Rightarrow> memento" where
  "memento_callback toolCall fc st =
     (if fc_name fc = decl_name renderHtmlDeclaration then
        st\<lparr>htmlString := arg_htmlText (fc_args fc),
           mloop := sendToolResponse toolCall success (mloop st)\<rparr>
      else if fc_name fc = decl_name lsDeclaration then
        st\<lparr>msuspended := msuspended st @ [(toolCall, ListFilesInCurrentFolder)]\<rparr>
      else if fc_name fc = decl_name writeToDeclaration then
        st\<lparr>msuspended := msuspended st @
             [(toolCall,
               WriteToFile (arg_fileName (fc_args fc)) (arg_contents (fc_args fc))
                 (case arg_append (fc_args fc) of None \<Rightarrow> True | Some b \<Rightarrow> b))]\<rparr>
      else if fc_name fc = decl_name readTxtFileDeclaration then
        st\<lparr>msuspended := msuspended st @ [(toolCall, ReadTxtFile (arg_fileName (fc_args fc)))]\<rparr>
      else st)"

definition memento_onToolCall :: "ToolCall \<Rightarrow> memento \<Rightarrow> memento" where
  "memento_onToolCall toolCall st = fold (memento_callback toolCall) (functionCalls toolCall) st"

definition memento_settle :: "nat \<Rightarrow> settlement \<Rightarrow> memento \<Rightarrow> memento" where
  "memento_settle k outcome st =
     (case settle k outcome (msuspended st, mloop st) of
        (suspended, s) \<Rightarrow> st\<lparr>msuspended := suspended, mloop := s\<rparr>)"

subsection \<open>The handler of GeminiMatrix\<close>

text \<open>
  The helpers with the arguments as the handler passes them, a property of \<open>args\<close> that
  may be \<open>undefined\<close>. \<open>resolve_index\<close> returns \<open>undefined\<close> for \<open>undefined\<close>, a sum
  with \<open>undefined\<close> is \<open>NaN\<close>, and a comparison with \<open>undefined\<close> or \<open>NaN\<close> is false:
  a loop with such a bound has no iteration. So setMatrixBlock with an \<open>undefined\<close>
  start index returns the clone as it is; with \<open>value\<close> \<open>undefined\<close> it throws a
  TypeError at \<open>value.length\<close>, before its \<open>try\<close>. selectMatrixBlock with an
  \<open>undefined\<close> row index returns \<open>[]\<close>, and with an \<open>undefined\<close> column index an empty
  row for each row of the range.
\<close>

definition setMatrixBlock_args ::
  "'a Matrix \<Rightarrow> int option \<Rightarrow> int option \<Rightarrow> 'a ValueMatrix option \<Rightarrow> error + 'a Matrix" where
  "setMatrixBlock_args matrix startRow startCol val =
     (case val of
        None \<Rightarrow> Inl TypeError
      | Some v \<Rightarrow>
          (case (startRow, startCol) of
             (Some r, Some c) \<Rightarrow> Inr (setMatrixBlock matrix r c v)
           | _ \<Rightarrow> Inr matrix))"

definition selectMatrixBlock_args ::
  "'a Matrix \<Rightarrow> int option \<Rightarrow> int option \<Rightarrow> int option \<Rightarrow> int option \<Rightarrow> error + 'a Matrix"
  where
  "selectMatrixBlock_args matrix startRow startCol endRow endCol =
     (case (startRow, endRow) of
        (Some sr, Some er) \<Rightarrow>
          (case (startCol, endCol) of
             (Some sc, Some ec) \<Rightarrow> selectMatrixBlock matrix sr sc er ec
           | _ \<Rightarrow>
               Inr (replicate
                      (nat (resolve_index er (int (length matrix)) -
                            resolve_index sr (int (length matrix)))) []))
      | _ \<Rightarrow> Inr [])"

text \<open>Outside the repository: \<open>JSON.parse\<close> and \<open>JSON.stringify\<close>.\<close>

record externals =
  parseJSON :: "string \<Rightarrow> error + json"
  stringifyJSON :: "json \<Rightarrow> string"

text \<open>
  The React state of GeminiMatrix, the suspended callbacks and the event loop.
  \<open>setData\<close> and \<open>setCellStyles\<close> take an updater, which React runs when it renders
  the component next, each on the state the one before has left. An exception of an
  updater is thrown by that render, not by the handler; no error boundary is in the
  sources, and a tree whose render throws is unmounted: \<open>render_error\<close> records the
  exception, the matrices being those of the last render.
\<close>

record gemini_matrix =
  data :: "string Matrix"
  cellStyles :: "json Matrix"
  editCell :: "(nat \<times> nat) option"
  render_error :: "error option"
  gsuspended :: "(ToolCall \<times> request) list"
  gloop :: loop

definition matrix_json :: "('a \<Rightarrow> json) \<Rightarrow> 'a Matrix \<Rightarrow> json" where
  "matrix_json f m =
     JArr (map (\<lambda>row. JArr (map (\<lambda>c. case c of None \<Rightarrow> JNull | Some x \<Rightarrow> f x) row)) m)"

definition output_success :: json where
  "output_success = JObj [(''output'', JObj [(''sucess'', JBool True)])]"

text \<open>
  \<open>args.value.map(row => row.map(style => JSON.parse(style)))\<close>: a row that is
  \<open>null\<close> throws a TypeError, \<open>JSON.parse\<close> may throw a SyntaxError, and
  \<open>JSON.parse(null)\<close> is \<open>null\<close>.
\<close>

fun parse_row :: "externals \<Rightarrow> string row \<Rightarrow> error + json row" where
  "parse_row ext [] = Inr []"
| "parse_row ext (c # cs) =
     (case (case c of None \<Rightarrow> Inr JNull | Some style \<Rightarrow> parseJSON ext style) of
        Inl e \<Rightarrow> Inl e
      | Inr v \<Rightarrow>
          (case parse_row ext cs of
             Inl e \<Rightarrow> Inl e
           | Inr vs \<Rightarrow> Inr ((if v = JNull then None else Some v) # vs)))"

fun parse_rows :: "externals \<Rightarrow> string ValueMatrix \<Rightarrow> error + json ValueMatrix" where
  "parse_rows ext [] = Inr []"
| "parse_rows ext (r # rs) =
     (case r of
        None \<Rightarrow> Inl TypeError
      | Some row \<Rightarrow>
          (case parse_row ext row of
             Inl e \<Rightarrow> Inl e
           | Inr vs \<Rightarrow>
               (case parse_rows ext rs of
                  Inl e \<Rightarrow> Inl e
                | Inr vss \<Rightarrow> Inr (Some vs # vss))))"

text \<open>The two updaters, as React runs them.\<close>

definition setData ::
  "int option \<Rightarrow> int option \<Rightarrow> string ValueMatrix option \<Rightarrow> gemini_matrix \<Rightarrow> gemini_matrix" where
  "setData startRow startCol val st =
     (case setMatrixBlock_args (data st) startRow startCol val of
        Inl e \<Rightarrow> st\<lparr>render_error := Some e\<rparr>
      | Inr matrix \<Rightarrow> st\<lparr>data := matrix\<rparr>)"

definition setCellStyles ::
  "int option \<Rightarrow> int option \<Rightarrow> json ValueMatrix option \<Rightarrow> gemini_matrix \<Rightarrow> gemini_matrix" where
  "setCellStyles startRow startCol val st =
     (case setMatrixBlock_args (cellStyles st) startRow startCol val of
        Inl e \<Rightarrow> st\<lparr>render_error := Some e\<rparr>
      | Inr matrix \<Rightarrow> st\<lparr>cellStyles := matrix\<rparr>)"

text \<open>
  The callback of GeminiMatrix for one function call, up to its first \<open>await\<close>.
  \<open>shown\<close> is the state of the render that created the handler: the cases
  \<open>getDataBlock\<close> and \<open>getStyleBlock\<close> read \<open>data\<close> and \<open>cellStyles\<close> from it, while
  the updaters work on the current state. The \<open>catch\<close> branches of the two set cases
  would answer an exception of \<open>setData\<close> or \<open>setCellStyles\<close>; these only register
  the updater and do not throw. In the case \<open>setStylesBlock\<close> the styles are parsed
  before the \<open>try\<close>: an exception there ends the callback.
\<close>

definition matrix_callback ::
  "externals \<Rightarrow> gemini_matrix \<Rightarrow> ToolCall \<Rightarrow> LiveFunctionCall \<Rightarrow> gemini_matrix \<Rightarrow> gemini_matrix"
  where
  "matrix_callback ext shown toolCall fc st =
     (if fc_name fc = decl_name geminiAsAToolDecl then
        st\<lparr>gsuspended := gsuspended st @ [(toolCall, SendMessage (arg_prompt (fc_args fc)))]\<rparr>
      else if fc_name fc = decl_name setDataBlockDecl then
        (setData (arg_startRow (fc_args fc)) (arg_startCol (fc_args fc)) (arg_value (fc_args fc)) st)
          \<lparr>gloop := sendToolResponse toolCall output_success (gloop st)\<rparr>
      else if fc_name fc = decl_name setStylesBlockDecl then
        (case arg_value (fc_args fc) of
           None \<Rightarrow> st
         | Some val \<Rightarrow>
             (case parse_rows ext val of
                Inl e \<Rightarrow> st
              | Inr cssValue \<Rightarrow>
                  (setCellStyles (arg_startRow (fc_args fc)) (arg_startCol (fc_args fc))
                     (Some cssValue) st)
                    \<lparr>gloop := sendToolResponse toolCall output_success (gloop st)\<rparr>))
      else if fc_name fc = decl_name getDataBlockDecl then
        (case selectMatrixBlock_args (data shown) (arg_startRow (fc_args fc))
                (arg_startCol (fc_args fc)) (arg_endRow (fc_args fc)) (arg_endCol (fc_args fc)) of
           Inl e \<Rightarrow> st
         | Inr result \<Rightarrow>
             st\<lparr>gloop :=
                  sendToolResponse toolCall (JObj [(''data'', matrix_json JStr result)])
                    (gloop st)\<rparr>)
      else if fc_name fc = decl_name getStyleBlockDecl then
        (case selectMatrixBlock_args (cellStyles shown) (arg_startRow (fc_args fc))
                (arg_startCol (fc_args fc)) (arg_endRow (fc_args fc)) (arg_endCol (fc_args fc)) of
           Inl e \<Rightarrow> st
         | Inr result \<Rightarrow>
             st\<lparr>gloop :=
                  sendToolResponse toolCall
                    (JObj [(''styles'',
                            matrix_json (\<lambda>style. JStr (stringifyJSON ext style)) result)])
                    (gloop st)\<rparr>)
      else st)"

definition matrix_onToolCall :: "externals \<Rightarrow> ToolCall \<Rightarrow> gemini_matrix \<Rightarrow> gemini_matrix" where
  "matrix_onToolCall ext toolCall st =
     fold (matrix_callback ext st toolCall) (functionCalls toolCall) st"

definition matrix_settle :: "nat \<Rightarrow> settlement \<Rightarrow> gemini_matrix \<Rightarrow> gemini_matrix" where
  "matrix_settle k outcome st =
     (case settle k outcome (gsuspended st, gloop st) of
        (suspended, s) \<Rightarrow> st\<lparr>gsuspended := suspended, gloop := s\<rparr>)"

section \<open>The tool-call correlator\<close>

text \<open>
  Modelled from the spec: the Tool-Call Correlator (section 4.6 of the specification)
  and the status of a ToolInvocation (section 3). They belong to the client class
  \<open>MultimodalLiveClient\<close>, which the components import from
  \<open>lib/multimodal-live-client\<close> and which is not among the sources verified here. The correlator keeps
  the status of every invocation id it has seen and the toolResponse entries it has
  sent.
\<close>

datatype InvocationStatus = Pending | Answered | Cancelled

text \<open>Modelled from the spec: the error taxonomy of section 7.\<close>

datatype session_error =
    ConnectionError
  | ProtocolError
  | NotConnectedError
  | UnknownInvocationError
  | AudioPipelineError

text \<open>
  Modelled from the spec: the state of the correlator, the map of ToolInvocations that
  the session owns (section 3) and the entries sent.
\<close>

record correlator =
  invocations :: "string \<Rightarrow> InvocationStatus option"
  toolResponses :: "LiveFunctionResponse list"

text \<open>
  Modelled from the spec: when a ToolCall message arrives, the correlator marks each
  invocation id of the batch Pending (and the handler registered with \<open>onToolCall\<close> is
  invoked with the batch).
\<close>

definition mark_pending :: "ToolCall \<Rightarrow> correlator \<Rightarrow> correlator" where
  "mark_pending toolCall c =
     c\<lparr>invocations :=
         fold (\<lambda>fc m. m(fc_id fc \<mapsto> Pending)) (functionCalls toolCall) (invocations c)\<rparr>"

text \<open>
  Modelled from the spec: \<open>respond(invocationId, payload)\<close> sends the toolResponse
  entry of a Pending invocation and makes it Answered; on an unknown or already answered
  id it fails with UnknownInvocationError, which is not fatal; on a Cancelled id it is a
  no-op. The result is the error, if any, and the correlator after the call.
\<close>

definition respond :: "string \<Rightarrow> json \<Rightarrow> correlator \<Rightarrow> session_error option \<times> correlator" where
  "respond invocationId payload c =
     (case invocations c invocationId of
        Some Pending \<Rightarrow>
          (None,
           c\<lparr>invocations := (invocations c)(invocationId \<mapsto> Answered),
             toolResponses :=
               toolResponses c @ [\<lparr>response = payload, fr_id = invocationId\<rparr>]\<rparr>)
      | Some Cancelled \<Rightarrow> (None, c)
      | Some Answered \<Rightarrow> (Some UnknownInvocationError, c)
      | None \<Rightarrow> (Some UnknownInvocationError, c))"

section \<open>The effects of the two components\<close>











text \<open>
  The number of renders that get another \<open>setConfig\<close> than the render before, \<open>s\<close>
  being the one of the render before the first of the list.
\<close>

fun changes :: "nat \<Rightarrow> nat list \<Rightarrow> nat" where
  "changes s [] = 0"
| "changes s (x # xs) = (if x = s then 0 else 1) + changes x xs"

section \<open>The codec of the setup frame\<close>

text \<open>
  Modelled from the spec: the Message Codec (section 4.2 of the specification) on the
  outbound message \<open>setup\<close>, which carries the Configuration (section 6). The codec
  belongs to the client, which is not among the sources verified here. A frame is
  JSON-shaped: here a
  \<open>json\<close> value, the \<open>setup\<close> frame being the object with the single key \<open>setup\<close>.
  The Configuration is the object the components pass to \<open>setConfig\<close>; its fields are
  written under the keys of that object, an option that is absent has no key, and the
  token limit is an integer. Decoding validates the tag and the required fields, and
  answers anything else with ProtocolError.
\<close>

text \<open>Modelled from the spec: the name of a schema type in a frame.\<close>

fun type_name :: "SchemaType \<Rightarrow> string" where
  "type_name STRING = ''STRING''"
| "type_name NUMBER = ''NUMBER''"
| "type_name INTEGER = ''INTEGER''"
| "type_name BOOLEAN = ''BOOLEAN''"
| "type_name ARRAY = ''ARRAY''"
| "type_name OBJECT = ''OBJECT''"

text \<open>Modelled from the spec: the schema type that a name in a frame stands for.\<close>

definition type_of_name :: "string \<Rightarrow> SchemaType option" where
  "type_of_name s =
     (if s = ''STRING'' then Some STRING
      else if s = ''NUMBER'' then Some NUMBER
      else if s = ''INTEGER'' then Some INTEGER
      else if s = ''BOOLEAN'' then Some BOOLEAN
      else if s = ''ARRAY'' then Some ARRAY
      else if s = ''OBJECT'' then Some OBJECT
      else None)"

text \<open>Modelled from the spec: a key that is written only when the option is present.\<close>

definition opt_field :: "string \<Rightarrow> ('a \<Rightarrow> json) \<Rightarrow> 'a option \<Rightarrow> (string \<times> json) list" where
  "opt_field k f v = (case v of None \<Rightarrow> [] | Some x \<Rightarrow> [(k, f x)])"

text \<open>Modelled from the spec: a required string (a required field validated).\<close>

definition decode_string :: "json option \<Rightarrow> session_error + string" where
  "decode_string v = (case v of Some (JStr s) \<Rightarrow> Inr s | _ \<Rightarrow> Inl ProtocolError)"

text \<open>Modelled from the spec: an optional string.\<close>

definition decode_opt_string :: "json option \<Rightarrow> session_error + string option" where
  "decode_opt_string v =
     (case v of None \<Rightarrow> Inr None | Some (JStr s) \<Rightarrow> Inr (Some s) | _ \<Rightarrow> Inl ProtocolError)"

text \<open>Modelled from the spec: an optional integer (numeric fields are integers).\<close>

definition decode_opt_int :: "json option \<Rightarrow> session_error + int option" where
  "decode_opt_int v =
     (case v of None \<Rightarrow> Inr None | Some (JNum n) \<Rightarrow> Inr (Some n) | _ \<Rightarrow> Inl ProtocolError)"

text \<open>Modelled from the spec: the elements of an array, each decoded; the first error ends it.\<close>

fun decode_list :: "(json \<Rightarrow> session_error + 'a) \<Rightarrow> json list \<Rightarrow> session_error + 'a list" where
  "decode_list f [] = Inr []"
| "decode_list f (v # vs) =
     (case f v of
        Inl e \<Rightarrow> Inl e
      | Inr x \<Rightarrow> (case decode_list f vs of Inl e \<Rightarrow> Inl e | Inr xs \<Rightarrow> Inr (x # xs)))"

text \<open>Modelled from the spec: the parameter schema of a declared function, encoded.\<close>

fun encode_schema :: "schema \<Rightarrow> json" where
  "encode_schema (SchemaPrim t d) =
     JObj ((''type'', JStr (type_name t)) # opt_field ''description'' JStr d)"
| "encode_schema (SchemaArray s d) =
     JObj ((''type'', JStr ''ARRAY'') # (''items'', encode_schema s) #
           opt_field ''description'' JStr d)"
| "encode_schema (SchemaObject props req) =
     JObj ((''type'', JStr ''OBJECT'') #
           (''properties'', JObj (map (\<lambda>(k, s). (k, encode_schema s)) props)) #
           opt_field ''required'' (\<lambda>r. JArr (map JStr r)) req)"

text \<open>Modelled from the spec: a parameter schema and the properties of an object schema, decoded.\<close>

function decode_schema :: "json \<Rightarrow> session_error + schema"
  and decode_properties :: "(string \<times> json) list \<Rightarrow> session_error + (string \<times> schema) list"
  where
  "decode_schema j =
     (case j of
        JObj kvs \<Rightarrow>
          (case decode_string (map_of kvs ''type'') of
             Inl e \<Rightarrow> Inl e
           | Inr tn \<Rightarrow>
               (case type_of_name tn of
                  None \<Rightarrow> Inl ProtocolError
                | Some t \<Rightarrow>
                    (case map_of kvs ''items'' of
                       Some items \<Rightarrow>
                         (if t = ARRAY then
                            (case decode_schema items of
                               Inl e \<Rightarrow> Inl e
                             | Inr s \<Rightarrow>
                                 (case decode_opt_string (map_of kvs ''description'') of
                                    Inl e \<Rightarrow> Inl e
                                  | Inr d \<Rightarrow> Inr (SchemaArray s d)))
                          else Inl ProtocolError)
                     | None \<Rightarrow>
                         (case map_of kvs ''properties'' of
                            Some (JObj pkvs) \<Rightarrow>
                              (if t = OBJECT then
                                 (case decode_properties pkvs of
                                    Inl e \<Rightarrow> Inl e
                                  | Inr props \<Rightarrow>
                                      (case map_of kvs ''required'' of
                                         None \<Rightarrow> Inr (SchemaObject props None)
                                       | Some (JArr rs) \<Rightarrow>
                                           (case decode_list (\<lambda>r. decode_string (Some r)) rs of
                                              Inl e \<Rightarrow> Inl e
                                            | Inr req \<Rightarrow> Inr (SchemaObject props (Some req)))
                                       | Some _ \<Rightarrow> Inl ProtocolError))
                               else Inl ProtocolError)
                          | Some _ \<Rightarrow> Inl ProtocolError
                          | None \<Rightarrow>
                              (case decode_opt_string (map_of kvs ''description'') of
                                 Inl e \<Rightarrow> Inl e
                               | Inr d \<Rightarrow> Inr (SchemaPrim t d))))))
      | _ \<Rightarrow> Inl ProtocolError)"
| "decode_properties [] = Inr []"
| "decode_properties ((k, v) # kvs) =
     (case decode_schema v of
        Inl e \<Rightarrow> Inl e
      | Inr s \<Rightarrow>
          (case decode_properties kvs of
             Inl e \<Rightarrow> Inl e
           | Inr props \<Rightarrow> Inr ((k, s) # props)))"
  by pat_completeness auto
termination
proof (relation "measure (\<lambda>x. case x of Inl j \<Rightarrow> size j
                          | Inr kvs \<Rightarrow> size_list (size_prod (\<lambda>_. 0) size) kvs)")
  have inside: "size v < Suc (size_list (size_prod (\<lambda>_. 0) size) kvs)"
    if "map_of kvs k = Some v" for kvs :: "(string \<times> json) list" and k v
    using that by (induction kvs) (auto split: if_splits)
  show "wf (measure (\<lambda>x. case x of Inl j \<Rightarrow> size j
                          | Inr kvs \<Rightarrow> size_list (size_prod (\<lambda>_. 0) size) kvs))"
    by simp
  show "(Inl items, Inl j) \<in> measure (\<lambda>x. case x of Inl j \<Rightarrow> size j
                          | Inr kvs \<Rightarrow> size_list (size_prod (\<lambda>_. 0) size) kvs)"
    if "j = JObj kvs" "map_of kvs ''items'' = Some items" for j kvs items
    using that inside[of kvs "''items''" items] by simp
  show "(Inr pkvs, Inl j) \<in> measure (\<lambda>x. case x of Inl j \<Rightarrow> size j
                          | Inr kvs \<Rightarrow> size_list (size_prod (\<lambda>_. 0) size) kvs)"
    if "j = JObj kvs" "map_of kvs ''properties'' = Some pj" "pj = JObj pkvs" for j kvs pj pkvs
    using that inside[of kvs "''properties''" "JObj pkvs"] by simp
  show "(Inl v, Inr ((k, v) # kvs)) \<in> measure (\<lambda>x. case x of Inl j \<Rightarrow> size j
                          | Inr kvs \<Rightarrow> size_list (size_prod (\<lambda>_. 0) size) kvs)"
    for k :: string and v :: json and kvs :: "(string \<times> json) list"
    by simp
  show "(Inr kvs, Inr ((k, v) # kvs)) \<in> measure (\<lambda>x. case x of Inl j \<Rightarrow> size j
                          | Inr kvs \<Rightarrow> size_list (size_prod (\<lambda>_. 0) size) kvs)"
    for k :: string and v :: json and kvs :: "(string \<times> json) list"
    by simp
qed

declare decode_schema.simps [simp del]

text \<open>Modelled from the spec: a declared function, encoded.\<close>

definition encode_declaration :: "FunctionDeclaration \<Rightarrow> json" where
  "encode_declaration d =
     JObj [(''name'', JStr (decl_name d)), (''description'', JStr (description d)),
           (''parameters'', encode_schema (parameters d))]"

text \<open>Modelled from the spec: a declared function, decoded.\<close>

definition decode_declaration :: "json \<Rightarrow> session_error + FunctionDeclaration" where
  "decode_declaration j =
     (case j of
        JObj kvs \<Rightarrow>
          (case decode_string (map_of kvs ''name'') of
             Inl e \<Rightarrow> Inl e
           | Inr n \<Rightarrow>
               (case decode_string (map_of kvs ''description'') of
                  Inl e \<Rightarrow> Inl e
                | Inr d \<Rightarrow>
                    (case map_of kvs ''parameters'' of
                       None \<Rightarrow> Inl ProtocolError
                     | Some pj \<Rightarrow>
                         (case decode_schema pj of
                            Inl e \<Rightarrow> Inl e
                          | Inr ps \<Rightarrow>
                              Inr \<lparr>decl_name = n, description = d, parameters = ps\<rparr>))))
      | _ \<Rightarrow> Inl ProtocolError)"

text \<open>Modelled from the spec: a capability descriptor of the list \<open>tools\<close>, encoded.\<close>

fun encode_tool :: "tool \<Rightarrow> json" where
  "encode_tool GoogleSearch = JObj [(''googleSearch'', JObj [])]"
| "encode_tool CodeExecution = JObj [(''codeExecution'', JObj [])]"
| "encode_tool (FunctionDeclarations ds) =
     JObj [(''functionDeclarations'', JArr (map encode_declaration ds))]"

text \<open>Modelled from the spec: a capability descriptor, decoded.\<close>

definition decode_tool :: "json \<Rightarrow> session_error + tool" where
  "decode_tool j =
     (case j of
        JObj [(k, v)] \<Rightarrow>
          (if k = ''googleSearch'' \<and> v = JObj [] then Inr GoogleSearch
           else if k = ''codeExecution'' \<and> v = JObj [] then Inr CodeExecution
           else if k = ''functionDeclarations'' then
             (case v of
                JArr ds \<Rightarrow>
                  (case decode_list decode_declaration ds of
                     Inl e \<Rightarrow> Inl e
                   | Inr decls \<Rightarrow> Inr (FunctionDeclarations decls))
              | _ \<Rightarrow> Inl ProtocolError)
           else Inl ProtocolError)
      | _ \<Rightarrow> Inl ProtocolError)"

text \<open>Modelled from the spec: response modality, voice and token limit, encoded.\<close>

definition encode_generationConfig :: "GenerationConfig \<Rightarrow> json" where
  "encode_generationConfig g =
     JObj ((''responseModalities'', JStr (responseModalities g)) #
           opt_field ''speechConfig''
             (\<lambda>v. JObj [(''voiceConfig'',
                          JObj [(''prebuiltVoiceConfig'', JObj [(''voiceName'', JStr v)])])])
             (voiceName g) @
           opt_field ''maxOutputTokens'' JNum (maxOutputTokens g))"

text \<open>Modelled from the spec: the voice selection, decoded.\<close>

definition decode_voice :: "json option \<Rightarrow> session_error + string option" where
  "decode_voice v =
     (case v of
        None \<Rightarrow> Inr None
      | Some (JObj [(k1, JObj [(k2, JObj [(k3, JStr name)])])]) \<Rightarrow>
          (if k1 = ''voiceConfig'' \<and> k2 = ''prebuiltVoiceConfig'' \<and> k3 = ''voiceName''
           then Inr (Some name) else Inl ProtocolError)
      | _ \<Rightarrow> Inl ProtocolError)"

text \<open>Modelled from the spec: response modality, voice and token limit, decoded.\<close>

definition decode_generationConfig :: "json \<Rightarrow> session_error + GenerationConfig" where
  "decode_generationConfig j =
     (case j of
        JObj kvs \<Rightarrow>
          (case decode_string (map_of kvs ''responseModalities'') of
             Inl e \<Rightarrow> Inl e
           | Inr rm \<Rightarrow>
               (case decode_voice (map_of kvs ''speechConfig'') of
                  Inl e \<Rightarrow> Inl e
                | Inr v \<Rightarrow>
                    (case decode_opt_int (map_of kvs ''maxOutputTokens'') of
                       Inl e \<Rightarrow> Inl e
                     | Inr n \<Rightarrow>
                         Inr \<lparr>responseModalities = rm, voiceName = v, maxOutputTokens = n\<rparr>)))
      | _ \<Rightarrow> Inl ProtocolError)"

text \<open>Modelled from the spec: the Configuration, encoded.\<close>

definition encode_config :: "LiveConfig \<Rightarrow> json" where
  "encode_config c =
     JObj [(''model'', JStr (model c)),
           (''generationConfig'', encode_generationConfig (generationConfig c)),
           (''systemInstruction'',
            JObj [(''parts'', JArr [JObj [(''text'', JStr (systemInstruction_text c))]])]),
           (''tools'', JArr (map encode_tool (tools c)))]"

text \<open>Modelled from the spec: the system instruction, decoded.\<close>

definition decode_instruction :: "json option \<Rightarrow> session_error + string" where
  "decode_instruction v =
     (case v of
        Some (JObj [(k1, JArr [JObj [(k2, JStr text)]])]) \<Rightarrow>
          (if k1 = ''parts'' \<and> k2 = ''text'' then Inr text else Inl ProtocolError)
      | _ \<Rightarrow> Inl ProtocolError)"

text \<open>Modelled from the spec: the Configuration, decoded.\<close>

definition decode_config :: "json \<Rightarrow> session_error + LiveConfig" where
  "decode_config j =
     (case j of
        JObj kvs \<Rightarrow>
          (case decode_string (map_of kvs ''model'') of
             Inl e \<Rightarrow> Inl e
           | Inr m \<Rightarrow>
               (case map_of kvs ''generationConfig'' of
                  None \<Rightarrow> Inl ProtocolError
                | Some gj \<Rightarrow>
                    (case decode_generationConfig gj of
                       Inl e \<Rightarrow> Inl e
                     | Inr g \<Rightarrow>
                         (case decode_instruction (map_of kvs ''systemInstruction'') of
                            Inl e \<Rightarrow> Inl e
                          | Inr si \<Rightarrow>
                              (case map_of kvs ''tools'' of
                                 Some (JArr ts) \<Rightarrow>
                                   (case decode_list decode_tool ts of
                                      Inl e \<Rightarrow> Inl e
                                    | Inr tls \<Rightarrow>
                                        Inr \<lparr>model = m, generationConfig = g,
                                             systemInstruction_text = si, tools = tls\<rparr>)
                               | _ \<Rightarrow> Inl ProtocolError)))))
      | _ \<Rightarrow> Inl ProtocolError)"

text \<open>Modelled from the spec: the \<open>setup\<close> frame of a Configuration.\<close>

definition encode_setup :: "LiveConfig \<Rightarrow> json" where
  "encode_setup c = JObj [(''setup'', encode_config c)]"

text \<open>Modelled from the spec: the decoding of a \<open>setup\<close> frame, which validates the tag.\<close>

definition decode_setup :: "json \<Rightarrow> session_error + LiveConfig" where
  "decode_setup frame =
     (case frame of
        JObj [(tag, body)] \<Rightarrow> (if tag = ''setup'' then decode_config body else Inl ProtocolError)
      | _ \<Rightarrow> Inl ProtocolError)"

section \<open>Properties of the matrix helpers\<close>

lemma selectCols_row:
  "at matrix r = Some row \<Longrightarrow>
   selectCols matrix r c ec acc = Inr (acc @ map (cell_at row) [c..ec - 1])"
proof (induction matrix r c ec acc rule: selectCols.induct)
  case (1 matrix rowIndex colIndex newEndCol newRow)
  show ?case
  proof (cases "colIndex < newEndCol")
    case True
    then have "[colIndex..newEndCol - 1] = colIndex # [colIndex + 1..newEndCol - 1]"
      by (simp add: upto_rec1)
    with True 1 show ?thesis
      by (subst selectCols.simps) simp
  next
    case False
    then show ?thesis by (subst selectCols.simps) simp
  qed
qed

lemma selectRows_in_range:
  "0 \<le> r \<Longrightarrow> er \<le> int (length matrix) \<Longrightarrow>
   selectRows matrix r er sc ec acc =
     Inr (acc @ map (\<lambda>k. map (cell_at (matrix ! nat k)) [sc..ec - 1]) [r..er - 1])"
proof (induction matrix r er sc ec acc rule: selectRows.induct)
  case (1 matrix rowIndex newEndRow newStartCol newEndCol result)
  show ?case
  proof (cases "rowIndex < newEndRow")
    case True
    then have up: "[rowIndex..newEndRow - 1] = rowIndex # [rowIndex + 1..newEndRow - 1]"
      by (simp add: upto_rec1)
    from True 1(2,3) have "at matrix rowIndex = Some (matrix ! nat rowIndex)"
      by (simp add: at_def)
    then have cols: "selectCols matrix rowIndex newStartCol newEndCol [] =
        Inr (map (cell_at (matrix ! nat rowIndex)) [newStartCol..newEndCol - 1])"
      by (simp add: selectCols_row)
    have "selectRows matrix (rowIndex + 1) newEndRow newStartCol newEndCol
            (result @ [map (cell_at (matrix ! nat rowIndex)) [newStartCol..newEndCol - 1]]) =
          Inr ((result @ [map (cell_at (matrix ! nat rowIndex)) [newStartCol..newEndCol - 1]]) @
               map (\<lambda>k. map (cell_at (matrix ! nat k)) [newStartCol..newEndCol - 1])
                 [rowIndex + 1..newEndRow - 1])"
      using 1(1)[OF True cols] 1(2,3) by simp
    with True cols up show ?thesis
      by (subst selectRows.simps) simp
  next
    case False
    then show ?thesis by (subst selectRows.simps) simp
  qed
qed

lemma cell_at_in_range:
  "0 \<le> c \<Longrightarrow> c < int (length row) \<Longrightarrow> cell_at row c = row ! nat c"
  by (simp add: cell_at_def at_def)

lemma block_of_rows:
  fixes m :: "'a Matrix"
  assumes len: "int (length m) = n" and rows: "\<forall>row\<in>set m. int (length row) = n"
    and b: "0 \<le> sr" "er \<le> n" "0 \<le> sc" "ec \<le> n"
  shows "is_block m sr sc er ec
           (map (\<lambda>k. map (cell_at (m ! nat k)) [sc..ec - 1]) [sr..er - 1])"
proof -
  let ?res = "map (\<lambda>k. map (cell_at (m ! nat k)) [sc..ec - 1]) [sr..er - 1]"
  have l: "length ?res = nat (er - sr)" by simp
  have cells: "length (?res ! i) = nat (ec - sc) \<and>
        (\<forall>j\<in>{..<nat (ec - sc)}. ?res ! i ! j = m ! (nat sr + i) ! (nat sc + j))"
    if i: "i < nat (er - sr)" for i
  proof -
    from i have k: "[sr..er - 1] ! i = sr + int i" by (simp add: nth_upto)
    from i b len have in_m: "nat sr + i < length m" by linarith
    then have "m ! (nat sr + i) \<in> set m" by simp
    with rows have rl: "int (length (m ! (nat sr + i))) = n" by blast
    from b have nk: "nat (sr + int i) = nat sr + i" by linarith
    from i have ri: "?res ! i = map (cell_at (m ! (nat sr + i))) [sc..ec - 1]"
      by (simp add: k nk)
    have "?res ! i ! j = m ! (nat sr + i) ! (nat sc + j)" if j: "j < nat (ec - sc)" for j
    proof -
      from j have "[sc..ec - 1] ! j = sc + int j" by (simp add: nth_upto)
      moreover from j b rl have "sc + int j < int (length (m ! (nat sr + i)))" by linarith
      moreover from b have "nat (sc + int j) = nat sc + j" by linarith
      ultimately show ?thesis using j b by (simp add: ri cell_at_in_range)
    qed
    then show ?thesis by (simp add: ri)
  qed
  show ?thesis unfolding is_block_def using l cells by blast
qed

lemma cell_at_Some_range:
  "cell_at xs i = Some x \<Longrightarrow> 0 \<le> i \<and> i < int (length xs)"
  by (auto simp: cell_at_def at_def split: if_splits)

lemma setCols_in_range:
  assumes "0 \<le> r" "r < int (length cl)" "0 \<le> c" "ec \<le> int (length (cl ! nat r))"
  shows "\<exists>cl'. setCols cl r c ec sc vrow = Inr cl' \<and> length cl' = length cl \<and>
           (\<forall>i<length cl. i \<noteq> nat r \<longrightarrow> cl' ! i = cl ! i) \<and>
           length (cl' ! nat r) = length (cl ! nat r) \<and>
           (\<forall>k<length (cl ! nat r). cl' ! nat r ! k =
              (if c \<le> int k \<and> int k < ec
               then (case cell_at vrow (int k - sc) of Some x \<Rightarrow> Some x
                     | None \<Rightarrow> cl ! nat r ! k)
               else cl ! nat r ! k))"
  using assms
proof (induction cl r c ec sc vrow rule: setCols.induct)
  case (1 cloned rowIndex colIndex newEndCol newStartCol vrow)
  show ?case
  proof (cases "colIndex < newEndCol")
    case False
    then show ?thesis by (subst setCols.simps) auto
  next
    case True
    note lt = True
    show ?thesis
    proof (cases "cell_at vrow (colIndex - newStartCol)")
      case None
      from "1.IH"(1)[OF lt None] "1.prems"
      obtain cl' where cl': "setCols cloned rowIndex (colIndex + 1) newEndCol newStartCol vrow = Inr cl'"
        "length cl' = length cloned"
        "\<forall>i<length cloned. i \<noteq> nat rowIndex \<longrightarrow> cl' ! i = cloned ! i"
        "length (cl' ! nat rowIndex) = length (cloned ! nat rowIndex)"
        "\<forall>k<length (cloned ! nat rowIndex). cl' ! nat rowIndex ! k =
              (if colIndex + 1 \<le> int k \<and> int k < newEndCol
               then (case cell_at vrow (int k - newStartCol) of Some x \<Rightarrow> Some x
                     | None \<Rightarrow> cloned ! nat rowIndex ! k)
               else cloned ! nat rowIndex ! k)"
        by auto
      have "setCols cloned rowIndex colIndex newEndCol newStartCol vrow = Inr cl'"
        using lt None cl'(1) by (subst setCols.simps) simp
      moreover have "\<forall>k<length (cloned ! nat rowIndex). cl' ! nat rowIndex ! k =
              (if colIndex \<le> int k \<and> int k < newEndCol
               then (case cell_at vrow (int k - newStartCol) of Some x \<Rightarrow> Some x
                     | None \<Rightarrow> cloned ! nat rowIndex ! k)
               else cloned ! nat rowIndex ! k)"
      proof (intro allI impI)
        fix k assume k: "k < length (cloned ! nat rowIndex)"
        show "cl' ! nat rowIndex ! k =
              (if colIndex \<le> int k \<and> int k < newEndCol
               then (case cell_at vrow (int k - newStartCol) of Some x \<Rightarrow> Some x
                     | None \<Rightarrow> cloned ! nat rowIndex ! k)
               else cloned ! nat rowIndex ! k)"
        proof (cases "int k = colIndex")
          case True
          then have nA: "(colIndex + 1 \<le> int k \<and> int k < newEndCol) = False" by simp
          from True None have "cell_at vrow (int k - newStartCol) = None" by simp
          then show ?thesis
            by (simp add: cl'(5)[rule_format, OF k] nA)
        next
          case False
          then have eqA: "(colIndex + 1 \<le> int k \<and> int k < newEndCol) =
              (colIndex \<le> int k \<and> int k < newEndCol)" by linarith
          show ?thesis
            by (simp only: cl'(5)[rule_format, OF k] eqA)
        qed
      qed
      ultimately show ?thesis using cl'(2,3,4) by blast
    next
      case (Some x)
      let ?row = "cloned ! nat rowIndex"
      let ?cl1 = "cloned[nat rowIndex := write_cell ?row colIndex x]"
      from "1.prems" have at: "at cloned rowIndex = Some ?row" by (simp add: at_def)
      from "1.prems" lt have w: "write_cell ?row colIndex x = ?row[nat colIndex := Some x]"
        by (simp add: write_cell_def)
      from "1.prems" have r1: "nat rowIndex < length cloned" by linarith
      have pre: "0 \<le> rowIndex" "rowIndex < int (length ?cl1)" "0 \<le> colIndex + 1"
        "newEndCol \<le> int (length (?cl1 ! nat rowIndex))"
        using "1.prems" r1 by (simp_all add: w)
      from "1.IH"(2)[OF lt Some at pre]
      obtain cl' where cl': "setCols ?cl1 rowIndex (colIndex + 1) newEndCol newStartCol vrow = Inr cl'"
        "length cl' = length ?cl1"
        "\<forall>i<length ?cl1. i \<noteq> nat rowIndex \<longrightarrow> cl' ! i = ?cl1 ! i"
        "length (cl' ! nat rowIndex) = length (?cl1 ! nat rowIndex)"
        "\<forall>k<length (?cl1 ! nat rowIndex). cl' ! nat rowIndex ! k =
              (if colIndex + 1 \<le> int k \<and> int k < newEndCol
               then (case cell_at vrow (int k - newStartCol) of Some x \<Rightarrow> Some x
                     | None \<Rightarrow> ?cl1 ! nat rowIndex ! k)
               else ?cl1 ! nat rowIndex ! k)"
        by blast
      have "setCols cloned rowIndex colIndex newEndCol newStartCol vrow = Inr cl'"
        using lt Some at cl'(1) by (subst setCols.simps) simp
      moreover have "\<forall>k<length ?row. cl' ! nat rowIndex ! k =
              (if colIndex \<le> int k \<and> int k < newEndCol
               then (case cell_at vrow (int k - newStartCol) of Some x \<Rightarrow> Some x
                     | None \<Rightarrow> ?row ! k)
               else ?row ! k)"
      proof (intro allI impI)
        fix k assume k: "k < length ?row"
        have k1: "?cl1 ! nat rowIndex ! k = (if k = nat colIndex then Some x else ?row ! k)"
          using r1 k by (simp add: w)
        show "cl' ! nat rowIndex ! k =
              (if colIndex \<le> int k \<and> int k < newEndCol
               then (case cell_at vrow (int k - newStartCol) of Some x \<Rightarrow> Some x
                     | None \<Rightarrow> ?row ! k)
               else ?row ! k)"
        proof (cases "int k = colIndex")
          case True
          from k have kl: "k < length (?cl1 ! nat rowIndex)" using r1 by (simp add: w)
          from True have nA: "(colIndex + 1 \<le> int k \<and> int k < newEndCol) = False" by simp
          have "cl' ! nat rowIndex ! k = ?cl1 ! nat rowIndex ! k"
            by (simp only: cl'(5)[rule_format, OF kl] nA if_False)
          also have "\<dots> = Some x"
          proof -
            from True have kc: "k = nat colIndex" by linarith
            from k kc have "nat colIndex < length ?row" by simp
            then have "?cl1 ! nat rowIndex ! nat colIndex = Some x"
              using r1 by (simp add: w)
            then show ?thesis by (simp only: kc)
          qed
          finally have "cl' ! nat rowIndex ! k = Some x" .
          moreover from True Some have "cell_at vrow (int k - newStartCol) = Some x" by simp
          moreover from True lt have "colIndex \<le> int k \<and> int k < newEndCol" by simp
          ultimately show ?thesis by simp
        next
          case False
          then have ne: "k \<noteq> nat colIndex" using "1.prems" by linarith
          from k have kl: "k < length (?cl1 ! nat rowIndex)" using r1 by (simp add: w)
          from ne k1 have same: "?cl1 ! nat rowIndex ! k = ?row ! k" by simp
          from False have eqA: "(colIndex + 1 \<le> int k \<and> int k < newEndCol) =
              (colIndex \<le> int k \<and> int k < newEndCol)" by linarith
          show ?thesis
            by (simp only: cl'(5)[rule_format, OF kl] eqA same)
        qed
      qed
      moreover have "length cl' = length cloned" using cl'(2) by simp
      moreover have "\<forall>i<length cloned. i \<noteq> nat rowIndex \<longrightarrow> cl' ! i = cloned ! i"
        using cl'(3) by simp
      moreover have "length (cl' ! nat rowIndex) = length ?row"
        using cl'(4) r1 by (simp add: w)
      ultimately show ?thesis by blast
    qed
  qed
qed


lemma cell_at_outside: "\<not> (0 \<le> i \<and> i < int (length xs)) \<Longrightarrow> cell_at xs i = None"
  by (auto simp: cell_at_def at_def)

lemma cell_at_Some_mem:
  assumes "cell_at xs i = Some x"
  shows "Some x \<in> set xs"
proof -
  from assms have r: "0 \<le> i" "i < int (length xs)" and v: "xs ! nat i = Some x"
    by (auto simp: cell_at_def at_def split: if_splits option.splits)
  from r have "nat i < length xs" by linarith
  then have "xs ! nat i \<in> set xs" by (rule nth_mem)
  with v show ?thesis by simp
qed

lemma setCols_row_block:
  assumes "0 \<le> r" "r < int (length cl)" "0 \<le> sc"
    and "sc + int (length vrow) \<le> int (length (cl ! nat r))"
  shows "\<exists>cl'. setCols cl r sc (sc + int (length vrow)) sc vrow = Inr cl' \<and>
           length cl' = length cl \<and>
           (\<forall>i<length cl. i \<noteq> nat r \<longrightarrow> cl' ! i = cl ! i) \<and>
           length (cl' ! nat r) = length (cl ! nat r) \<and>
           (\<forall>k<length (cl ! nat r). cl' ! nat r ! k =
              (case cell_at vrow (int k - sc) of Some x \<Rightarrow> Some x
               | None \<Rightarrow> cl ! nat r ! k))"
proof -
  from setCols_in_range[OF assms, of sc vrow]
  obtain cl' where cl': "setCols cl r sc (sc + int (length vrow)) sc vrow = Inr cl'"
    "length cl' = length cl"
    "\<forall>i<length cl. i \<noteq> nat r \<longrightarrow> cl' ! i = cl ! i"
    "length (cl' ! nat r) = length (cl ! nat r)"
    "\<forall>k<length (cl ! nat r). cl' ! nat r ! k =
              (if sc \<le> int k \<and> int k < sc + int (length vrow)
               then (case cell_at vrow (int k - sc) of Some x \<Rightarrow> Some x
                     | None \<Rightarrow> cl ! nat r ! k)
               else cl ! nat r ! k)"
    by blast
  have "cl' ! nat r ! k =
          (case cell_at vrow (int k - sc) of Some x \<Rightarrow> Some x | None \<Rightarrow> cl ! nat r ! k)"
    if k: "k < length (cl ! nat r)" for k
  proof (cases "sc \<le> int k \<and> int k < sc + int (length vrow)")
    case True
    then show ?thesis by (simp add: cl'(5)[rule_format, OF k])
  next
    case False
    then have "cell_at vrow (int k - sc) = None"
      by (intro cell_at_outside) linarith
    with False show ?thesis by (simp add: cl'(5)[rule_format, OF k])
  qed
  with cl'(1-4) show ?thesis by blast
qed

lemma setRows_in_range:
  assumes "0 \<le> r" "er \<le> int (length cl)" "\<forall>i<length cl. int (length (cl ! i)) = n"
    and "0 \<le> sc" "\<forall>vrow. Some vrow \<in> set val \<longrightarrow> sc + int (length vrow) \<le> n"
  shows "\<exists>cl'. setRows cl r er sr sc val = Inr cl' \<and> length cl' = length cl \<and>
           (\<forall>i<length cl. length (cl' ! i) = length (cl ! i) \<and>
              (\<forall>k<length (cl ! i). cl' ! i ! k =
                 (if r \<le> int i \<and> int i < er
                  then (case value_cell val (int i - sr) (int k - sc) of Some x \<Rightarrow> Some x
                        | None \<Rightarrow> cl ! i ! k)
                  else cl ! i ! k)))"
  using assms
proof (induction cl r er sr sc val rule: setRows.induct)
  case (1 cloned rowIndex newEndRow newStartRow newStartCol val)
  show ?case
  proof (cases "rowIndex < newEndRow")
    case False
    then have "setRows cloned rowIndex newEndRow newStartRow newStartCol val = Inr cloned"
      by (subst setRows.simps) simp
    moreover from False have "\<And>i. (rowIndex \<le> int i \<and> int i < newEndRow) = False" by auto
    ultimately show ?thesis by auto
  next
    case True
    note lt = True
    from "1.prems" lt have r1: "nat rowIndex < length cloned" by linarith
    show ?thesis
    proof (cases "cell_at val (rowIndex - newStartRow)")
      case None
      from "1.IH"(1)[OF lt None] "1.prems"
      obtain cl' where cl': "setRows cloned (rowIndex + 1) newEndRow newStartRow newStartCol val = Inr cl'"
        "length cl' = length cloned"
        "\<forall>i<length cloned. length (cl' ! i) = length (cloned ! i) \<and>
              (\<forall>k<length (cloned ! i). cl' ! i ! k =
                 (if rowIndex + 1 \<le> int i \<and> int i < newEndRow
                  then (case value_cell val (int i - newStartRow) (int k - newStartCol) of
                          Some x \<Rightarrow> Some x | None \<Rightarrow> cloned ! i ! k)
                  else cloned ! i ! k))"
        by auto
      have run: "setRows cloned rowIndex newEndRow newStartRow newStartCol val = Inr cl'"
        using lt None cl'(1) by (subst setRows.simps) simp
      have "cl' ! i ! k =
                 (if rowIndex \<le> int i \<and> int i < newEndRow
                  then (case value_cell val (int i - newStartRow) (int k - newStartCol) of
                          Some x \<Rightarrow> Some x | None \<Rightarrow> cloned ! i ! k)
                  else cloned ! i ! k)"
        if i: "i < length cloned" and k: "k < length (cloned ! i)" for i k
      proof (cases "int i = rowIndex")
        case True
        then have nA: "(rowIndex + 1 \<le> int i \<and> int i < newEndRow) = False" by simp
        from True None have "value_cell val (int i - newStartRow) (int k - newStartCol) = None"
          by (simp add: value_cell_def)
        then show ?thesis
          by (simp add: cl'(3)[rule_format, OF i, THEN conjunct2, rule_format, OF k] nA)
      next
        case False
        then have eqA: "(rowIndex + 1 \<le> int i \<and> int i < newEndRow) =
            (rowIndex \<le> int i \<and> int i < newEndRow)" by linarith
        show ?thesis
          by (simp only: cl'(3)[rule_format, OF i, THEN conjunct2, rule_format, OF k] eqA)
      qed
      with run cl'(2,3) show ?thesis by blast
    next
      case (Some vrow)
      then have mem: "Some vrow \<in> set val" by (rule cell_at_Some_mem)
      with "1.prems"(5) have fit: "newStartCol + int (length vrow) \<le> n" by blast
      from "1.prems"(3) r1 have rl: "int (length (cloned ! nat rowIndex)) = n" by blast
      from r1 have r2: "rowIndex < int (length cloned)" by linarith
      from fit rl have fit2: "newStartCol + int (length vrow) \<le> int (length (cloned ! nat rowIndex))"
        by simp
      from setCols_row_block[OF "1.prems"(1) r2 "1.prems"(4) fit2]
      obtain cl1 where cl1:
        "setCols cloned rowIndex newStartCol (newStartCol + int (length vrow)) newStartCol vrow
           = Inr cl1"
        "length cl1 = length cloned"
        "\<forall>i<length cloned. i \<noteq> nat rowIndex \<longrightarrow> cl1 ! i = cloned ! i"
        "length (cl1 ! nat rowIndex) = length (cloned ! nat rowIndex)"
        "\<forall>k<length (cloned ! nat rowIndex). cl1 ! nat rowIndex ! k =
              (case cell_at vrow (int k - newStartCol) of Some x \<Rightarrow> Some x
               | None \<Rightarrow> cloned ! nat rowIndex ! k)"
        by blast
      have len1: "length (cl1 ! i) = length (cloned ! i)" if "i < length cloned" for i
        using that cl1(3,4) by (cases "i = nat rowIndex") auto
      have pre: "0 \<le> rowIndex + 1" "newEndRow \<le> int (length cl1)"
        "\<forall>i<length cl1. int (length (cl1 ! i)) = n"
        using "1.prems" cl1(2) len1 by auto
      from "1.IH"(2)[OF lt Some cl1(1) pre "1.prems"(4,5)]
      obtain cl' where cl': "setRows cl1 (rowIndex + 1) newEndRow newStartRow newStartCol val = Inr cl'"
        "length cl' = length cl1"
        "\<forall>i<length cl1. length (cl' ! i) = length (cl1 ! i) \<and>
              (\<forall>k<length (cl1 ! i). cl' ! i ! k =
                 (if rowIndex + 1 \<le> int i \<and> int i < newEndRow
                  then (case value_cell val (int i - newStartRow) (int k - newStartCol) of
                          Some x \<Rightarrow> Some x | None \<Rightarrow> cl1 ! i ! k)
                  else cl1 ! i ! k))"
        by blast
      have run: "setRows cloned rowIndex newEndRow newStartRow newStartCol val = Inr cl'"
        using lt Some cl1(1) cl'(1) by (subst setRows.simps) simp
      have cell: "cl' ! i ! k =
                 (if rowIndex \<le> int i \<and> int i < newEndRow
                  then (case value_cell val (int i - newStartRow) (int k - newStartCol) of
                          Some x \<Rightarrow> Some x | None \<Rightarrow> cloned ! i ! k)
                  else cloned ! i ! k)"
        if i: "i < length cloned" and k: "k < length (cloned ! i)" for i k
      proof -
        from i cl1(2) have i1: "i < length cl1" by simp
        from k len1[OF i] have k1: "k < length (cl1 ! i)" by simp
        note step = cl'(3)[rule_format, OF i1, THEN conjunct2, rule_format, OF k1]
        show ?thesis
        proof (cases "int i = rowIndex")
          case True
          then have nA: "(rowIndex + 1 \<le> int i \<and> int i < newEndRow) = False" by simp
          from True have ir: "i = nat rowIndex" by linarith
          from k ir have kr: "k < length (cloned ! nat rowIndex)" by simp
          have "cl' ! i ! k = cl1 ! i ! k" by (simp only: step nA if_False)
          also have "\<dots> = (case cell_at vrow (int k - newStartCol) of Some x \<Rightarrow> Some x
               | None \<Rightarrow> cloned ! i ! k)"
            using cl1(5)[rule_format, OF kr] by (simp only: ir)
          also have "cell_at vrow (int k - newStartCol) =
              value_cell val (int i - newStartRow) (int k - newStartCol)"
            using Some True by (simp add: value_cell_def)
          finally show ?thesis using True lt by simp
        next
          case False
          then have eqA: "(rowIndex + 1 \<le> int i \<and> int i < newEndRow) =
            (rowIndex \<le> int i \<and> int i < newEndRow)" by linarith
          from False have "i \<noteq> nat rowIndex" using "1.prems"(1) by linarith
          with cl1(3) i have "cl1 ! i = cloned ! i" by blast
          then show ?thesis by (simp only: step eqA)
        qed
      qed
      have "length cl' = length cloned" using cl'(2) cl1(2) by simp
      moreover have "length (cl' ! i) = length (cloned ! i)" if i: "i < length cloned" for i
        using cl'(3) cl1(2) len1[OF i] i by simp
      ultimately show ?thesis using run cell by blast
    qed
  qed
qed

lemma at_deref: "at (deref h cl) r = map_option (\<lambda>a. h ! a) (at cl r)"
proof (cases "0 \<le> r \<and> r < int (length cl)")
  case True
  then have "nat r < length cl" by linarith
  with True show ?thesis by (simp add: at_def deref_def)
next
  case False
  then show ?thesis by (auto simp: at_def deref_def)
qed

lemma deref_update:
  assumes "distinct cl" "i < length cl" "\<forall>a\<in>set cl. a < length h"
  shows "deref (h[cl ! i := w]) cl = (deref h cl)[i := w]"
proof (rule nth_equalityI)
  show "length (deref (h[cl ! i := w]) cl) = length ((deref h cl)[i := w])"
    by (simp add: deref_def)
next
  fix j assume "j < length (deref (h[cl ! i := w]) cl)"
  then have j: "j < length cl" by (simp add: deref_def)
  from assms(3) assms(2) have ai: "cl ! i < length h" by simp
  show "deref (h[cl ! i := w]) cl ! j = (deref h cl)[i := w] ! j"
  proof (cases "j = i")
    case True
    with j ai show ?thesis by (simp add: deref_def)
  next
    case False
    with assms(1,2) j have "cl ! j \<noteq> cl ! i" by (simp add: nth_eq_iff_index_eq)
    with False j show ?thesis by (simp add: deref_def)
  qed
qed

lemma clone_rows_eq:
  "\<forall>a\<in>set m. a < length h \<Longrightarrow>
   clone_rows h m = (h @ deref h m, [length h..<length h + length m])"
proof (induction m arbitrary: h)
  case Nil
  then show ?case by (simp add: deref_def)
next
  case (Cons a as)
  then have v: "\<forall>b\<in>set as. b < length (h @ [h ! a])" by auto
  have d: "deref (h @ [h ! a]) as = deref h as"
    using Cons.prems by (auto simp: deref_def nth_append)
  have "[length h..<length h + length (a # as)] =
        length h # [length (h @ [h ! a])..<length (h @ [h ! a]) + length as]"
    by (simp add: upt_rec)
  with Cons.IH[OF v] d show ?case by (simp add: deref_def)
qed

lemma setCols_store_sim:
  assumes "distinct cl" "\<forall>a\<in>set cl. a < length h"
  shows "view cl (setCols_store h cl r c ec sc vrow) = setCols (deref h cl) r c ec sc vrow \<and>
         length (store_of (setCols_store h cl r c ec sc vrow)) = length h \<and>
         (\<forall>a<length h. a \<notin> set cl \<longrightarrow> store_of (setCols_store h cl r c ec sc vrow) ! a = h ! a)"
  using assms
proof (induction h cl r c ec sc vrow rule: setCols_store.induct)
  case (1 h cloned rowIndex colIndex newEndCol newStartCol vrow)
  show ?case
  proof (cases "colIndex < newEndCol")
    case False
    then show ?thesis
      by (subst (1 2 3) setCols_store.simps, subst setCols.simps) (simp add: view_def store_of_def)
  next
    case True
    note lt = True
    show ?thesis
    proof (cases "cell_at vrow (colIndex - newStartCol)")
      case None
      from "1.IH"(1)[OF lt None "1.prems"] lt None show ?thesis
        by (subst (1 2 3) setCols_store.simps, subst setCols.simps) simp
    next
      case (Some x)
      show ?thesis
      proof (cases "at cloned rowIndex")
        case None
        then have "at (deref h cloned) rowIndex = None" by (simp add: at_deref)
        with lt Some None show ?thesis
          by (subst (1 2 3) setCols_store.simps, subst setCols.simps)
             (simp add: view_def store_of_def)
      next
        case (Some a)
        note ata = Some
        then have r: "0 \<le> rowIndex" "nat rowIndex < length cloned" and a: "a = cloned ! nat rowIndex"
          by (auto simp: at_def split: if_splits)
        let ?h1 = "h[a := write_cell (h ! a) colIndex x]"
        from ata have atd: "at (deref h cloned) rowIndex = Some (h ! a)" by (simp add: at_deref)
        have d1: "deref ?h1 cloned = (deref h cloned)[nat rowIndex := write_cell (h ! a) colIndex x]"
          unfolding a by (rule deref_update[OF "1.prems"(1) r(2) "1.prems"(2)])
        from "1.prems" have v1: "\<forall>b\<in>set cloned. b < length ?h1" by simp
        from r(2) have amem: "a \<in> set cloned" unfolding a by simp
        note ih = "1.IH"(2)[OF lt \<open>cell_at vrow (colIndex - newStartCol) = Some x\<close> ata "1.prems"(1) v1]
        have unf: "setCols_store h cloned rowIndex colIndex newEndCol newStartCol vrow =
              setCols_store ?h1 cloned rowIndex (colIndex + 1) newEndCol newStartCol vrow"
          using lt \<open>cell_at vrow (colIndex - newStartCol) = Some x\<close> ata
          by (subst setCols_store.simps) simp
        have unf2: "setCols (deref h cloned) rowIndex colIndex newEndCol newStartCol vrow =
              setCols (deref ?h1 cloned) rowIndex (colIndex + 1) newEndCol newStartCol vrow"
          using lt \<open>cell_at vrow (colIndex - newStartCol) = Some x\<close> atd
          by (subst setCols.simps) (simp add: d1)
        have other: "?h1 ! b = h ! b" if "b \<notin> set cloned" for b
          using that amem by (cases "b = a") auto
        from ih other show ?thesis unfolding unf unf2 by auto
      qed
    qed
  qed
qed

lemma setRows_store_sim:
  assumes "distinct cl" "\<forall>a\<in>set cl. a < length h"
  shows "view cl (setRows_store h cl r er sr sc val) = setRows (deref h cl) r er sr sc val \<and>
         length (store_of (setRows_store h cl r er sr sc val)) = length h \<and>
         (\<forall>a<length h. a \<notin> set cl \<longrightarrow> store_of (setRows_store h cl r er sr sc val) ! a = h ! a)"
  using assms
proof (induction h cl r er sr sc val rule: setRows_store.induct)
  case (1 h cloned rowIndex newEndRow newStartRow newStartCol val)
  show ?case
  proof (cases "rowIndex < newEndRow")
    case False
    then show ?thesis
      by (subst (1 2 3) setRows_store.simps, subst setRows.simps) (simp add: view_def store_of_def)
  next
    case True
    note lt = True
    show ?thesis
    proof (cases "cell_at val (rowIndex - newStartRow)")
      case None
      from "1.IH"(1)[OF lt None "1.prems"] lt None show ?thesis
        by (subst (1 2 3) setRows_store.simps, subst setRows.simps) simp
    next
      case (Some vrow)
      note sim = setCols_store_sim[OF "1.prems", of rowIndex newStartCol
          "newStartCol + int (length vrow)" newStartCol vrow]
      show ?thesis
      proof (cases "setCols_store h cloned rowIndex newStartCol
                     (newStartCol + int (length vrow)) newStartCol vrow")
        case (Inl thrown)
        obtain e h' where th: "thrown = (e, h')" by (cases thrown)
        from sim Inl th have
          p: "setCols (deref h cloned) rowIndex newStartCol (newStartCol + int (length vrow))
                newStartCol vrow = Inl (e, deref h' cloned)"
          and l: "length h' = length h"
          and f: "\<forall>a<length h. a \<notin> set cloned \<longrightarrow> h' ! a = h ! a"
          by (simp_all add: view_def store_of_def)
        have unf: "setRows_store h cloned rowIndex newEndRow newStartRow newStartCol val = Inl (e, h')"
          using lt Some Inl th by (subst setRows_store.simps) simp
        have unf2: "setRows (deref h cloned) rowIndex newEndRow newStartRow newStartCol val =
            Inl (e, deref h' cloned)"
          using lt Some p by (subst setRows.simps) simp
        show ?thesis unfolding unf unf2 using l f by (simp add: view_def store_of_def)
      next
        case (Inr h')
        from sim Inr have
          p: "setCols (deref h cloned) rowIndex newStartCol (newStartCol + int (length vrow))
                newStartCol vrow = Inr (deref h' cloned)"
          and l: "length h' = length h"
          and f: "\<forall>a<length h. a \<notin> set cloned \<longrightarrow> h' ! a = h ! a"
          by (simp_all add: view_def store_of_def)
        from "1.prems" l have v1: "\<forall>b\<in>set cloned. b < length h'" by simp
        note ih = "1.IH"(2)[OF lt Some Inr "1.prems"(1) v1]
        have unf: "setRows_store h cloned rowIndex newEndRow newStartRow newStartCol val =
            setRows_store h' cloned (rowIndex + 1) newEndRow newStartRow newStartCol val"
          using lt Some Inr by (subst setRows_store.simps) simp
        have unf2: "setRows (deref h cloned) rowIndex newEndRow newStartRow newStartCol val =
            setRows (deref h' cloned) (rowIndex + 1) newEndRow newStartRow newStartCol val"
          using lt Some p by (subst setRows.simps) simp
        from ih l f show ?thesis unfolding unf unf2 by auto
      qed
    qed
  qed
qed

lemma length_deref: "length (deref h m) = length m"
  by (simp add: deref_def)

lemma setMatrixBlock_store_refines:
  assumes valid: "\<forall>a\<in>set m. a < length h"
  shows "case setMatrixBlock_store h m startRow startCol val of (h', res) \<Rightarrow>
           deref h' res = setMatrixBlock (deref h m) startRow startCol val \<and>
           res = [length h..<length h + length m] \<and>
           length h' = length h + length m \<and>
           (\<forall>a<length h. h' ! a = h ! a)"
proof -
  let ?h1 = "h @ deref h m" and ?cl = "[length h..<length h + length m]"
  let ?sr = "resolve_index startRow (int (length m))"
  let ?sc = "resolve_index startCol (int (length m))"
  let ?run = "setRows_store ?h1 ?cl ?sr (?sr + int (length val)) ?sr ?sc val"
  have cl: "clone_rows h m = (?h1, ?cl)" using valid by (rule clone_rows_eq)
  have d: "distinct ?cl" by simp
  have v: "\<forall>a\<in>set ?cl. a < length ?h1" by (simp add: deref_def)
  have dc: "deref ?h1 ?cl = deref h m"
    by (rule nth_equalityI) (simp_all add: deref_def nth_append)
  note sim = setRows_store_sim[OF d v, of ?sr "?sr + int (length val)" ?sr ?sc val]
  have st: "setMatrixBlock_store h m startRow startCol val = (store_of ?run, ?cl)"
    by (simp add: setMatrixBlock_store_def Let_def cl store_of_def split: sum.splits prod.splits)
  have pure: "setMatrixBlock (deref h m) startRow startCol val =
      (case view ?cl ?run of Inl (e, c) \<Rightarrow> c | Inr c \<Rightarrow> c)"
    using sim[THEN conjunct1] by (simp add: setMatrixBlock_def Let_def dc length_deref)
  have "deref (store_of ?run) ?cl = (case view ?cl ?run of Inl (e, c) \<Rightarrow> c | Inr c \<Rightarrow> c)"
    by (simp add: view_def store_of_def split: sum.splits prod.splits)
  moreover have "length (store_of ?run) = length h + length m"
    using sim by (simp add: deref_def)
  moreover have "store_of ?run ! a = h ! a" if "a < length h" for a
  proof -
    from that have "a \<notin> set ?cl" "a < length ?h1" by simp_all
    with sim have "store_of ?run ! a = ?h1 ! a" by blast
    with that show ?thesis by (simp add: nth_append)
  qed
  ultimately show ?thesis unfolding st using pure by simp
qed

lemma setMatrixBlock_in_range:
  fixes m :: "'a Matrix"
  assumes len: "int (length m) = n" and rows: "\<forall>row\<in>set m. int (length row) = n"
    and b: "0 \<le> startRow" "0 \<le> startCol" "startRow + int (length val) \<le> n"
    and fit: "\<forall>v\<in>set val. case v of None \<Rightarrow> True
                | Some vrow \<Rightarrow> startCol + int (length vrow) \<le> n"
  shows "length (setMatrixBlock m startRow startCol val) = length m \<and>
         (\<forall>i<length m. length (setMatrixBlock m startRow startCol val ! i) = length (m ! i) \<and>
            (\<forall>k<length (m ! i). setMatrixBlock m startRow startCol val ! i ! k =
               (case value_cell val (int i - startRow) (int k - startCol) of
                  Some x \<Rightarrow> Some x | None \<Rightarrow> m ! i ! k)))"
proof -
  let ?er = "startRow + int (length val)"
  have r: "\<forall>i<length m. int (length (m ! i)) = n" using rows by simp
  have f: "\<forall>vrow. Some vrow \<in> set val \<longrightarrow> startCol + int (length vrow) \<le> n"
    using fit by (auto split: option.splits)
  have er: "?er \<le> int (length m)" using b len by simp
  from setRows_in_range[OF b(1) er r b(2) f, of startRow]
  obtain cl' where cl': "setRows m startRow ?er startRow startCol val = Inr cl'"
    "length cl' = length m"
    "\<forall>i<length m. length (cl' ! i) = length (m ! i) \<and>
              (\<forall>k<length (m ! i). cl' ! i ! k =
                 (if startRow \<le> int i \<and> int i < ?er
                  then (case value_cell val (int i - startRow) (int k - startCol) of
                          Some x \<Rightarrow> Some x | None \<Rightarrow> m ! i ! k)
                  else m ! i ! k))"
    by blast
  have res: "setMatrixBlock m startRow startCol val = cl'"
    using b cl'(1) by (simp add: setMatrixBlock_def resolve_index_def Let_def)
  have "cl' ! i ! k = (case value_cell val (int i - startRow) (int k - startCol) of
                  Some x \<Rightarrow> Some x | None \<Rightarrow> m ! i ! k)"
    if i: "i < length m" and k: "k < length (m ! i)" for i k
  proof (cases "startRow \<le> int i \<and> int i < ?er")
    case True
    then show ?thesis
      by (simp add: cl'(3)[rule_format, OF i, THEN conjunct2, rule_format, OF k])
  next
    case False
    then have "cell_at val (int i - startRow) = None"
      by (intro cell_at_outside) linarith
    then have "value_cell val (int i - startRow) (int k - startCol) = None"
      by (simp add: value_cell_def)
    with False show ?thesis
      by (simp add: cl'(3)[rule_format, OF i, THEN conjunct2, rule_format, OF k])
  qed
  with cl'(2,3) show ?thesis unfolding res by blast
qed

subsection \<open>Rounding\<close>

lemma bit_length_2_53: "bit_length 9007199254740992 = 54"
  by code_simp

lemma round_to_2_53: "round_to 2 9007199254740992 = 9007199254740992"
  by code_simp

text \<open>Every integer up to \<open>2^53\<close> in absolute value is a double.\<close>

lemma round_double_exact: "\<bar>x\<bar> \<le> 2 ^ 53 \<Longrightarrow> round_double x = x"
proof (cases "\<bar>x\<bar> < 2 ^ 53")
  case True
  then show ?thesis by (simp add: round_double_def)
next
  case False
  assume "\<bar>x\<bar> \<le> 2 ^ 53"
  with False have a: "\<bar>x\<bar> = 2 ^ 53" by linarith
  from a have "sgn x * 2 ^ 53 = x" by (cases "x < 0") (simp_all add: sgn_if)
  thus ?thesis using a by (simp add: round_double_def bit_length_2_53 round_to_2_53)
qed

lemma resolve_index_nonneg: "0 \<le> i \<Longrightarrow> resolve_index i len = i"
  by (simp add: resolve_index_def)

lemma resolve_index_neg:
  assumes "i < 0" "- (2 ^ 53) \<le> len + i" "len + i + 1 \<le> 2 ^ 53"
  shows "resolve_index i len = len + i + 1"
proof -
  have "\<bar>len + i\<bar> \<le> 2 ^ 53" using assms by linarith
  hence a: "round_double (len + i) = len + i" by (rule round_double_exact)
  have "\<bar>len + i + 1\<bar> \<le> 2 ^ 53" using assms by linarith
  hence "round_double (len + i + 1) = len + i + 1" by (rule round_double_exact)
  thus ?thesis using assms(1) a by (simp add: resolve_index_def)
qed

lemma resolve_index_end:
  assumes "0 \<le> n" "n < 2 ^ 53" "e = - 1 \<or> (0 \<le> e \<and> e \<le> n)"
  shows "resolve_index e n = (if e = - 1 then n else e)"
proof (cases "e = - 1")
  case True
  have "resolve_index (- 1) n = n + (- 1) + 1"
    using assms(1,2) by (intro resolve_index_neg) simp_all
  with True show ?thesis by simp
next
  case False
  with assms(3) show ?thesis by (simp add: resolve_index_nonneg)
qed

subsection \<open>Claim C10: resolve_index and selectMatrixBlock\<close>

text \<open>
  Claim C10 says that \<open>resolve_index(i, n)\<close> is \<open>n + i + 1\<close> for every negative integer
  \<open>i\<close>. The function computes \<open>n + i + 1\<close> in doubles, and a sum beyond \<open>2^53\<close> is
  rounded: for \<open>i = -9007199254740994\<close> (a double) and \<open>n = 1\<close> the sum \<open>n + i\<close> is
  \<open>-9007199254740993\<close>, which rounds to \<open>-9007199254740992\<close>, and the result is
  \<open>-9007199254740991\<close>, not \<open>-9007199254740992\<close>.
\<close>

theorem resolve_index_rounding_counterexample:
  "resolve_index (- 9007199254740994) 1 = - 9007199254740991 \<and>
   resolve_index (- 9007199254740994) 1 \<noteq> 1 + (- 9007199254740994) + 1"
  by code_simp

text \<open>
  Claim C10, as the code has it. \<open>resolve_index i len\<close> is \<open>i\<close> for \<open>i \<ge> 0\<close>, and
  \<open>len + i + 1\<close> for \<open>i < 0\<close> where neither \<open>len + i\<close> nor \<open>len + i + 1\<close> goes beyond
  \<open>2^53\<close> in absolute value. On a matrix of \<open>n\<close> rows of \<open>n\<close> cells, \<open>n\<close> below
  \<open>2^53\<close> as the length of every JavaScript array is, with non-negative start indices
  and each end index either \<open>-1\<close> or between \<open>0\<close> and \<open>n\<close>: selectMatrixBlock returns
  without an exception the block of \<open>endRow - startRow\<close> rows of \<open>endCol - startCol\<close>
  cells whose cell \<open>(i, j)\<close> is cell \<open>(startRow + i, startCol + j)\<close> of the matrix,
  where an end index \<open>-1\<close> stands for \<open>n\<close>: the block then runs up to and including the
  last row, or the last column.
\<close>

theorem resolve_index_exact_selectMatrixBlock:
  fixes m :: "'a Matrix"
  assumes "int (length m) = n" and "\<forall>row\<in>set m. int (length row) = n" and "n < 2 ^ 53"
    and "0 \<le> startRow" and "0 \<le> startCol"
    and "endRow = - 1 \<or> (0 \<le> endRow \<and> endRow \<le> n)"
    and "endCol = - 1 \<or> (0 \<le> endCol \<and> endCol \<le> n)"
  shows "(0 \<le> i \<longrightarrow> resolve_index i len = i) \<and>
    (i < 0 \<and> - (2 ^ 53) \<le> len + i \<and> len + i + 1 \<le> 2 ^ 53 \<longrightarrow>
       resolve_index i len = len + i + 1) \<and>
    (\<exists>res. selectMatrixBlock m startRow startCol endRow endCol = Inr res \<and>
           is_block m startRow startCol
             (if endRow = - 1 then n else endRow) (if endCol = - 1 then n else endCol) res)"
proof (intro conjI impI)
  assume "0 \<le> i"
  thus "resolve_index i len = i" by (rule resolve_index_nonneg)
next
  assume "i < 0 \<and> - (2 ^ 53) \<le> len + i \<and> len + i + 1 \<le> 2 ^ 53"
  thus "resolve_index i len = len + i + 1" by (intro resolve_index_neg) simp_all
next
  let ?er = "if endRow = - 1 then n else endRow"
  let ?ec = "if endCol = - 1 then n else endCol"
  have n0: "0 \<le> n" using assms(1) by linarith
  have er: "resolve_index endRow (int (length m)) = ?er"
    unfolding assms(1) using n0 assms(3,6) by (rule resolve_index_end)
  have ec: "resolve_index endCol (int (length m)) = ?ec"
    unfolding assms(1) using n0 assms(3,7) by (rule resolve_index_end)
  have sr: "resolve_index startRow (int (length m)) = startRow"
    using assms(4) by (rule resolve_index_nonneg)
  have sc: "resolve_index startCol (int (length m)) = startCol"
    using assms(5) by (rule resolve_index_nonneg)
  have ber: "0 \<le> ?er \<and> ?er \<le> n" using assms(6) n0 by auto
  have bec: "0 \<le> ?ec \<and> ?ec \<le> n" using assms(7) n0 by auto
  have unf: "selectMatrixBlock m startRow startCol endRow endCol =
      selectRows m startRow ?er startCol ?ec []"
    unfolding selectMatrixBlock_def er ec sr sc Let_def ..
  show "\<exists>res. selectMatrixBlock m startRow startCol endRow endCol = Inr res \<and>
           is_block m startRow startCol ?er ?ec res"
    unfolding unf using assms(1,2,4,5) ber bec
    by (simp add: selectRows_in_range block_of_rows)
qed

theorem resolve_index_exact_selectMatrixBlock_witness:
  "resolve_index (- 1) 2 = 2 \<and>
   selectMatrixBlock [[Some (1::nat), Some 2], [Some 3, Some 4]] 0 1 (- 1) (- 1) =
     Inr [[Some 2], [Some 4]] \<and>
   (\<exists>res. selectMatrixBlock [[Some (1::nat), Some 2], [Some 3, Some 4]] 0 1 (- 1) (- 1) = Inr res \<and>
          is_block [[Some (1::nat), Some 2], [Some 3, Some 4]] 0 1 2 2 res)"
proof -
  let ?m = "[[Some (1::nat), Some 2], [Some 3, Some 4]]"
  have h1: "int (length ?m) = 2" by simp
  have h2: "\<forall>row\<in>set ?m. int (length row) = 2" by simp
  have h3: "(2::int) < 2 ^ 53" by simp
  have h4: "(0::int) \<le> 0" and h5: "(0::int) \<le> 1" by simp_all
  have h6: "(- 1::int) = - 1 \<or> (0 \<le> (- 1::int) \<and> (- 1::int) \<le> 2)" by simp
  have ev: "selectMatrixBlock ?m 0 1 (- 1) (- 1) = Inr [[Some 2], [Some 4]]" by code_simp
  have b: "(- 1::int) < 0 \<and> - (2 ^ 53) \<le> 2 + (- 1::int) \<and> 2 + (- 1::int) + 1 \<le> 2 ^ 53"
    by simp
  note c = resolve_index_exact_selectMatrixBlock[OF h1 h2 h3 h4 h5 h6 h6, of "- 1" 2]
  have c2: "resolve_index (- 1) 2 = 2" using c[THEN conjunct2, THEN conjunct1, THEN mp, OF b] by simp
  have c3: "\<exists>res. selectMatrixBlock ?m 0 1 (- 1) (- 1) = Inr res \<and> is_block ?m 0 1 2 2 res"
    using c[THEN conjunct2, THEN conjunct2] by simp
  show ?thesis by (intro conjI c2 ev c3)
qed

subsection \<open>Claim C9: setMatrixBlock\<close>

text \<open>
  Claim C9 says that the result of setMatrixBlock equals the value matrix on the whole
  target block. It does not where the value matrix holds \<open>null\<close>: the guard
  \<open>!= undefined\<close> skips that cell and the cell of the matrix stays. Here the matrix is
  the single cell \<open>1\<close> and the value matrix the single cell \<open>null\<close>.
\<close>

theorem setMatrixBlock_null_cell_counterexample:
  "setMatrixBlock [[Some (1::nat)]] 0 0 [Some [None]] ! 0 ! 0 \<noteq> value_cell [Some [None]] 0 0"
  by code_simp

text \<open>
  Claim C9, as the code has it. The rows of the matrix \<open>m\<close> live in the store \<open>h\<close>;
  the matrix has \<open>n\<close> rows of \<open>n\<close> cells, the start indices are non-negative and
  every row of the value matrix fits into the matrix from the start column on. Then the
  result has the shape of \<open>m\<close>; its cell \<open>(i, k)\<close> is the cell
  \<open>(i - startRow, k - startCol)\<close> of the value matrix where that cell exists and is not
  \<open>null\<close>, and the cell of \<open>m\<close> everywhere else; no array of the store that existed
  before the call has changed, the rows of \<open>m\<close> among them, and the rows of the result
  are arrays allocated by the call.
\<close>

theorem setMatrixBlock_defined_cells_fresh_clone:
  fixes h :: "'a store"
  assumes "\<forall>a\<in>set m. a < length h"
    and "int (length m) = n" and "\<forall>a\<in>set m. int (length (h ! a)) = n"
    and "0 \<le> startRow" and "0 \<le> startCol" and "startRow + int (length val) \<le> n"
    and "\<forall>v\<in>set val. case v of None \<Rightarrow> True
           | Some vrow \<Rightarrow> startCol + int (length vrow) \<le> n"
  shows "case setMatrixBlock_store h m startRow startCol val of (h', res) \<Rightarrow>
           length res = length m \<and>
           (\<forall>i<length m. length (h' ! (res ! i)) = length (h ! (m ! i)) \<and>
              (\<forall>k<length (h ! (m ! i)). h' ! (res ! i) ! k =
                 (case value_cell val (int i - startRow) (int k - startCol) of
                    Some x \<Rightarrow> Some x | None \<Rightarrow> h ! (m ! i) ! k))) \<and>
           (\<forall>a<length h. h' ! a = h ! a) \<and>
           (\<forall>a\<in>set res. length h \<le> a \<and> a < length h') \<and>
           deref h' res = setMatrixBlock (deref h m) startRow startCol val"
proof -
  obtain h' res where st: "setMatrixBlock_store h m startRow startCol val = (h', res)"
    by (cases "setMatrixBlock_store h m startRow startCol val")
  from setMatrixBlock_store_refines[OF assms(1), of startRow startCol val] st
  have ref: "deref h' res = setMatrixBlock (deref h m) startRow startCol val"
    "res = [length h..<length h + length m]" "length h' = length h + length m"
    "\<forall>a<length h. h' ! a = h ! a"
    by auto
  have l: "int (length (deref h m)) = n" using assms(2) by (simp add: deref_def)
  have rws: "\<forall>row\<in>set (deref h m). int (length row) = n"
    using assms(3) by (auto simp: deref_def)
  note pure = setMatrixBlock_in_range[OF l rws assms(4,5,6,7)]
  have lr: "length res = length m" using ref(2) by simp
  have cells: "length (h' ! (res ! i)) = length (h ! (m ! i)) \<and>
              (\<forall>k<length (h ! (m ! i)). h' ! (res ! i) ! k =
                 (case value_cell val (int i - startRow) (int k - startCol) of
                    Some x \<Rightarrow> Some x | None \<Rightarrow> h ! (m ! i) ! k))"
    if i: "i < length m" for i
  proof -
    from i have i': "i < length (deref h m)" by (simp add: deref_def)
    from i lr have a: "deref h' res ! i = h' ! (res ! i)" by (simp add: deref_def)
    from i have b: "deref h m ! i = h ! (m ! i)" by (simp add: deref_def)
    from pure[THEN conjunct2, rule_format, OF i'] show ?thesis
      unfolding ref(1)[symmetric] a b .
  qed
  have fresh: "\<forall>a\<in>set res. length h \<le> a \<and> a < length h'"
    using ref(2,3) by simp
  show ?thesis unfolding st using lr cells ref(4) fresh ref(1) by simp
qed

theorem setMatrixBlock_defined_cells_fresh_clone_witness:
  "setMatrixBlock_store [[Some (1::nat), Some 2], [Some 3, Some 4]] [0, 1] 0 1
       [Some [Some 9], Some [None]] =
     ([[Some 1, Some 2], [Some 3, Some 4], [Some 1, Some 9], [Some 3, Some 4]], [2, 3]) \<and>
   deref [[Some 1, Some 2], [Some 3, Some 4], [Some 1, Some 9], [Some 3, Some 4]] [2, 3] =
     setMatrixBlock (deref [[Some (1::nat), Some 2], [Some 3, Some 4]] [0, 1]) 0 1
       [Some [Some 9], Some [None]] \<and>
   [[Some 1, Some 2], [Some 3, Some 4], [Some 1, Some 9], [Some 3, Some 4]] ! 1 =
     [[Some (1::nat), Some 2], [Some 3, Some 4]] ! 1"
proof -
  let ?h = "[[Some (1::nat), Some 2], [Some 3, Some 4]]"
  let ?v = "[Some [Some (9::nat)], Some [None]]"
  have h1: "\<forall>a\<in>set [0, 1]. a < length ?h" by simp
  have h2: "int (length [0::nat, 1]) = 2" by simp
  have h3: "\<forall>a\<in>set [0, 1]. int (length (?h ! a)) = 2" by simp
  have h4: "(0::int) \<le> 0" and h5: "(0::int) \<le> 1" by simp_all
  have h6: "0 + int (length ?v) \<le> 2" by simp
  have h7: "\<forall>v\<in>set ?v. case v of None \<Rightarrow> True | Some vrow \<Rightarrow> 1 + int (length vrow) \<le> 2"
    by simp
  have ev: "setMatrixBlock_store ?h [0, 1] 0 1 ?v =
     ([[Some 1, Some 2], [Some 3, Some 4], [Some 1, Some 9], [Some 3, Some 4]], [2, 3])"
    by code_simp
  note c = setMatrixBlock_defined_cells_fresh_clone[OF h1 h2 h3 h4 h5 h6 h7, unfolded ev prod.case]
  from c have c5: "deref [[Some 1, Some 2], [Some 3, Some 4], [Some 1, Some 9], [Some 3, Some 4]] [2, 3] =
     setMatrixBlock (deref ?h [0, 1]) 0 1 ?v"
    by (elim conjE)
  from c have c3: "\<forall>a<length ?h.
      [[Some 1, Some 2], [Some 3, Some 4], [Some 1, Some 9], [Some 3, Some 4]] ! a = ?h ! a"
    by (elim conjE)
  have "(1::nat) < length ?h" by simp
  with c3 have c3': "[[Some 1, Some 2], [Some 3, Some 4], [Some 1, Some 9], [Some 3, Some 4]] ! 1 = ?h ! 1"
    by blast
  show ?thesis by (intro conjI ev c5 c3')
qed

section \<open>Properties of the helpers and the timer queue\<close>

lemma fold_max_ge: "n \<le> fold max xs (n::nat)"
proof (induction xs arbitrary: n)
  case Nil
  show ?case by simp
next
  case (Cons x xs)
  have "n \<le> max x n" by simp
  also have "\<dots> \<le> fold max xs (max x n)" by (rule Cons.IH)
  finally show ?case by simp
qed

lemma fold_max_ge_elem: "x \<in> set xs \<Longrightarrow> x \<le> fold max xs (n::nat)"
proof (induction xs arbitrary: n)
  case Nil
  then show ?case by simp
next
  case (Cons y ys)
  show ?case
  proof (cases "x = y")
    case True
    have "x \<le> max y n" using True by simp
    also have "\<dots> \<le> fold max ys (max y n)" by (rule fold_max_ge)
    finally show ?thesis by simp
  next
    case False
    with Cons.prems have "x \<in> set ys" by simp
    then show ?thesis using Cons.IH by simp
  qed
qed

lemma due_split_sorted:
  "sorted (map fst ts) \<Longrightarrow>
   filter (\<lambda>e. fst e \<le> t) ts @ filter (\<lambda>e. \<not> fst e \<le> t) ts = (ts :: (nat \<times> 'c) list)"
proof (induction ts)
  case Nil
  show ?case by simp
next
  case (Cons e es)
  then have s: "sorted (map fst es)" and le: "\<forall>x\<in>set es. fst e \<le> fst x" by auto
  show ?case
  proof (cases "fst e \<le> t")
    case True
    with Cons.IH[OF s] show ?thesis by simp
  next
    case False
    with le have "\<forall>x\<in>set es. \<not> fst x \<le> t" by auto
    then have "filter (\<lambda>e. fst e \<le> t) es = []" "filter (\<lambda>e. \<not> fst e \<le> t) es = es"
      by (simp_all add: filter_empty_conv filter_id_conv)
    with False show ?thesis by simp
  qed
qed

lemma advance_keeps_calls:
  assumes "sorted (map fst (timers s))"
  shows "issued (advance t s) @ map snd (timers (advance t s)) = issued s @ map snd (timers s)"
proof -
  have "sorted (map fst (filter (\<lambda>e. fst e \<le> t) (timers s)))"
    using assms by (rule sorted_filter)
  then have "sort_key fst (filter (\<lambda>e. fst e \<le> t) (timers s)) = filter (\<lambda>e. fst e \<le> t) (timers s)"
    by (rule sort_key_id_if_sorted)
  moreover have "map snd (filter (\<lambda>e. fst e \<le> t) (timers s)) @
      map snd (filter (\<lambda>e. \<not> fst e \<le> t) (timers s)) = map snd (timers s)"
    using due_split_sorted[OF assms, of t] by (metis map_append)
  ultimately show ?thesis by (simp add: advance_def)
qed

lemma timers_ok_setTimeout: "timers_ok delay s \<Longrightarrow> timers_ok delay (setTimeout c delay s)"
  by (auto simp: timers_ok_def setTimeout_def sorted_append list_all_iff)

lemma timers_ok_advance: "timers_ok delay s \<Longrightarrow> timers_ok delay (advance t s)"
  by (auto simp: timers_ok_def advance_def sorted_filter list_all_iff)

lemma run_keeps_calls:
  "timers_ok delay s \<Longrightarrow>
   timers_ok delay (run delay steps s) \<and>
   issued (run delay steps s) @ map snd (timers (run delay steps s)) =
     issued s @ map snd (timers s) @ calls_of steps"
proof (induction delay steps s rule: run.induct)
  case (1 delay s)
  then show ?case by simp
next
  case (2 delay toolCall resp steps s)
  let ?s1 = "sendToolResponse_after delay toolCall resp s"
  from 2(2) have ok: "timers_ok delay ?s1"
    by (simp add: sendToolResponse_after_def timers_ok_setTimeout)
  from "2.IH"[OF ok] show ?case
    by (simp add: sendToolResponse_after_def setTimeout_def)
next
  case (3 delay msg steps s)
  let ?s1 = "sendUserMessage_after delay msg s"
  from 3(2) have ok: "timers_ok delay ?s1"
    by (simp add: sendUserMessage_after_def timers_ok_setTimeout)
  from "3.IH"[OF ok] show ?case
    by (simp add: sendUserMessage_after_def setTimeout_def)
next
  case (4 delay n steps s)
  let ?s1 = "advance (now s + n) s"
  from 4(2) have ok: "timers_ok delay ?s1" by (rule timers_ok_advance)
  from 4(2) have "sorted (map fst (timers s))" by (simp add: timers_ok_def)
  from advance_keeps_calls[OF this, of "now s + n"] "4.IH"[OF ok]
  show ?case by simp
qed

lemma flush_all:
  assumes "sorted (map fst (timers s))"
  shows "timers (flush s) = [] \<and> issued (flush s) = issued s @ map snd (timers s)"
proof -
  let ?t = "fold max (map fst (timers s)) (now s)"
  have "\<forall>e\<in>set (timers s). fst e \<le> ?t" by (simp add: fold_max_ge_elem)
  then have e: "timers (flush s) = []"
    by (simp add: flush_def advance_def filter_empty_conv)
  from advance_keeps_calls[OF assms, of ?t] e show ?thesis by (simp add: flush_def)
qed

lemma timers_ok_idle: "timers_ok delay idle"
  by (simp add: timers_ok_def idle_def)

lemma flush_run_idle: "issued (flush (run delay steps idle)) = calls_of steps"
proof -
  from run_keeps_calls[OF timers_ok_idle, of delay steps]
  have ok: "timers_ok delay (run delay steps idle)"
    and c: "issued (run delay steps idle) @ map snd (timers (run delay steps idle)) = calls_of steps"
    by (simp_all add: idle_def)
  from ok have "sorted (map fst (timers (run delay steps idle)))" by (simp add: timers_ok_def)
  from flush_all[OF this] c show ?thesis by simp
qed

subsection \<open>Claim C3: sends are deferred, and the delay does not matter\<close>

text \<open>
  Claim C3. A call of sendToolResponse or sendUserMessage issues no client call itself:
  it registers a timer whose callback makes the client call. Whatever the delay is, the
  client calls issued once all timers have run are those that the helper calls of the
  run ask for, in the order of the helper calls; so they are the same as with the delay
  200 of the source.
\<close>

theorem sends_are_deferred_delay_irrelevant:
  "issued (sendToolResponse_after delay toolCall resp s) = issued s \<and>
   timers (sendToolResponse_after delay toolCall resp s) =
     timers s @ [(now s + delay, SendToolResponseCall (functionResponses toolCall resp))] \<and>
   issued (sendUserMessage_after delay text s) = issued s \<and>
   timers (sendUserMessage_after delay text s) =
     timers s @ [(now s + delay, SendCall [TextPart text])] \<and>
   issued (flush (run delay steps idle)) = calls_of steps \<and>
   issued (flush (run delay steps idle)) = issued (flush (run 200 steps idle))"
  by (simp add: sendToolResponse_after_def sendUserMessage_after_def setTimeout_def flush_run_idle)

theorem sends_are_deferred_delay_irrelevant_witness:
  "issued (sendUserMessage_after 5 ''hello'' idle) = issued idle \<and>
   issued (flush (run 5 [UserMessageStep ''hello'', Wait 3, UserMessageStep ''again''] idle)) =
     calls_of [UserMessageStep ''hello'', Wait 3, UserMessageStep ''again''] \<and>
   issued (flush (run 5 [UserMessageStep ''hello'', Wait 3, UserMessageStep ''again''] idle)) =
     issued (flush (run 200 [UserMessageStep ''hello'', Wait 3, UserMessageStep ''again''] idle))"
proof -
  note c = sends_are_deferred_delay_irrelevant
    [of 5 "\<lparr>functionCalls = []\<rparr>" JNull idle "''hello''"
        "[UserMessageStep ''hello'', Wait 3, UserMessageStep ''again'']"]
  note c3 = c[THEN conjunct2, THEN conjunct2, THEN conjunct1]
  note c5 = c[THEN conjunct2, THEN conjunct2, THEN conjunct2, THEN conjunct2, THEN conjunct1]
  note c6 = c[THEN conjunct2, THEN conjunct2, THEN conjunct2, THEN conjunct2, THEN conjunct2]
  show ?thesis by (intro conjI c3 c5 c6)
qed

subsection \<open>Claim C2: one invocation, one response, one frame\<close>

text \<open>
  Claim C2. The tool call holds the single invocation with id \<open>a\<close> (of any name and
  arguments) and the component answers it once, through sendToolResponse, with the
  payload \<open>{result: 42}\<close>. Once the timer has run, exactly one client call has been
  issued: \<open>sendToolResponse\<close> with the list \<open>[{response: {result: 42}, id: a}]\<close>.
\<close>

theorem single_invocation_single_toolResponse:
  "issued (flush (sendToolResponse
      \<lparr>functionCalls = [\<lparr>fc_id = ''a'', fc_name = name, fc_args = args\<rparr>]\<rparr>
      (JObj [(''result'', JNum 42)]) idle)) =
   [SendToolResponseCall [\<lparr>response = JObj [(''result'', JNum 42)], fr_id = ''a''\<rparr>]]"
proof -
  let ?tc = "\<lparr>functionCalls = [\<lparr>fc_id = ''a'', fc_name = name, fc_args = args\<rparr>]\<rparr>"
  have eq: "sendToolResponse ?tc (JObj [(''result'', JNum 42)]) idle =
      run 200 [ToolResponseStep ?tc (JObj [(''result'', JNum 42)])] idle"
    by (simp add: sendToolResponse_def)
  show ?thesis unfolding eq flush_run_idle by (simp add: functionResponses_def)
qed

subsection \<open>The user message\<close>

text \<open>
  A call of sendUserMessage with the text \<open>t\<close> issues, once its timer has run, exactly
  one client call: \<open>send\<close> with the single part \<open>{text: t}\<close> and no second argument.
  Whether the frame of that call closes the turn is decided by \<open>client.send\<close>, by what
  it takes for the argument left out.
\<close>

lemma sendUserMessage_one_send:
  "issued (flush (sendUserMessage t idle)) = [SendCall [TextPart t]]"
proof -
  have eq: "sendUserMessage t idle = run 200 [UserMessageStep t] idle"
    by (simp add: sendUserMessage_def)
  show ?thesis unfolding eq flush_run_idle by simp
qed

section \<open>Properties of the tool-call handlers\<close>

text \<open>
  A function call whose name is none of the declared names falls through the \<open>switch\<close>:
  its callback changes nothing, suspends nothing and registers no timer, and neither
  does a batch of such calls.
\<close>

lemma memento_callback_unknown:
  assumes "fc_name fc \<notin> {''render_html'', ''ls'', ''writeTo'', ''readTxtFile''}"
  shows "memento_callback toolCall fc st = st"
  using assms
  by (simp add: memento_callback_def renderHtmlDeclaration_def lsDeclaration_def
      writeToDeclaration_def readTxtFileDeclaration_def)

lemma matrix_callback_unknown:
  assumes "fc_name fc \<notin>
     {''gemini'', ''setDataBlock'', ''setStylesBlock'', ''getDataBlock'', ''getStyleBlock''}"
  shows "matrix_callback ext shown toolCall fc st = st"
  using assms
  by (simp add: matrix_callback_def geminiAsAToolDecl_def setDataBlockDecl_def
      setStylesBlockDecl_def getDataBlockDecl_def getStyleBlockDecl_def)

lemma memento_callbacks_unknown:
  "\<forall>fc\<in>set fcs. fc_name fc \<notin> {''render_html'', ''ls'', ''writeTo'', ''readTxtFile''} \<Longrightarrow>
   fold (memento_callback toolCall) fcs st = st"
  by (induction fcs) (simp_all add: memento_callback_unknown)

lemma matrix_callbacks_unknown:
  "\<forall>fc\<in>set fcs. fc_name fc \<notin>
     {''gemini'', ''setDataBlock'', ''setStylesBlock'', ''getDataBlock'', ''getStyleBlock''} \<Longrightarrow>
   fold (matrix_callback ext shown toolCall) fcs st = st"
  by (induction fcs) (simp_all add: matrix_callback_unknown)

lemma memento_onToolCall_unknown:
  "\<forall>fc\<in>set (functionCalls toolCall).
      fc_name fc \<notin> {''render_html'', ''ls'', ''writeTo'', ''readTxtFile''} \<Longrightarrow>
   memento_onToolCall toolCall st = st"
  by (simp add: memento_onToolCall_def memento_callbacks_unknown)

lemma matrix_onToolCall_unknown:
  "\<forall>fc\<in>set (functionCalls toolCall). fc_name fc \<notin>
     {''gemini'', ''setDataBlock'', ''setStylesBlock'', ''getDataBlock'', ''getStyleBlock''} \<Longrightarrow>
   matrix_onToolCall ext toolCall st = st"
  by (simp add: matrix_onToolCall_def matrix_callbacks_unknown)

lemma set_one: "setMatrixBlock [[Some '''']] 0 0 [Some [Some ''x'']] = [[Some ''x'']]"
  by code_simp

subsection \<open>Claim C8: an invocation with an unknown function name\<close>

text \<open>
  Claim C8 says that an invocation whose function name is none of the declared names
  gets no toolResponse and changes no state. The callback of such an invocation does
  nothing indeed; but sendToolResponse, called for another invocation of the same
  batch, answers every id of the batch. Here the batch holds the invocation \<open>a\<close> of
  an unknown function and the invocation \<open>b\<close> of a declared one (\<open>render_html\<close> for
  Memento, \<open>setDataBlock\<close> for GeminiMatrix): the one timer that the handler registers
  sends a toolResponse whose list answers \<open>a\<close> with the response made for \<open>b\<close>.
\<close>

theorem unknown_invocation_answered_in_mixed_batch:
  "memento_onToolCall
     \<lparr>functionCalls =
        [\<lparr>fc_id = ''a'', fc_name = ''no_such_function'', fc_args = no_args\<rparr>,
         \<lparr>fc_id = ''b'', fc_name = ''render_html'',
          fc_args = no_args\<lparr>arg_htmlText := Some ''hi''\<rparr>\<rparr>]\<rparr>
     \<lparr>htmlString = Some '''', msuspended = [], mloop = idle\<rparr> =
   \<lparr>htmlString = Some ''hi'', msuspended = [],
    mloop = idle\<lparr>timers :=
      [(200, SendToolResponseCall
               [\<lparr>response = success, fr_id = ''a''\<rparr>,
                \<lparr>response = success, fr_id = ''b''\<rparr>])]\<rparr>\<rparr> \<and>
   matrix_onToolCall ext
     \<lparr>functionCalls =
        [\<lparr>fc_id = ''a'', fc_name = ''no_such_function'', fc_args = no_args\<rparr>,
         \<lparr>fc_id = ''b'', fc_name = ''setDataBlock'',
          fc_args = no_args\<lparr>arg_startRow := Some 0, arg_startCol := Some 0,
                            arg_value := Some [Some [Some ''x'']]\<rparr>\<rparr>]\<rparr>
     \<lparr>data = [[Some '''']], cellStyles = [[Some (JObj [])]], editCell = None,
      render_error = None, gsuspended = [], gloop = idle\<rparr> =
   \<lparr>data = [[Some ''x'']], cellStyles = [[Some (JObj [])]], editCell = None,
    render_error = None, gsuspended = [],
    gloop = idle\<lparr>timers :=
      [(200, SendToolResponseCall
               [\<lparr>response = output_success, fr_id = ''a''\<rparr>,
                \<lparr>response = output_success, fr_id = ''b''\<rparr>])]\<rparr>\<rparr>"
proof (intro conjI)
  show "memento_onToolCall
     \<lparr>functionCalls =
        [\<lparr>fc_id = ''a'', fc_name = ''no_such_function'', fc_args = no_args\<rparr>,
         \<lparr>fc_id = ''b'', fc_name = ''render_html'',
          fc_args = no_args\<lparr>arg_htmlText := Some ''hi''\<rparr>\<rparr>]\<rparr>
     \<lparr>htmlString = Some '''', msuspended = [], mloop = idle\<rparr> =
   \<lparr>htmlString = Some ''hi'', msuspended = [],
    mloop = idle\<lparr>timers :=
      [(200, SendToolResponseCall
               [\<lparr>response = success, fr_id = ''a''\<rparr>,
                \<lparr>response = success, fr_id = ''b''\<rparr>])]\<rparr>\<rparr>"
    by (simp add: memento_onToolCall_def memento_callback_def renderHtmlDeclaration_def
      lsDeclaration_def writeToDeclaration_def readTxtFileDeclaration_def
      sendToolResponse_def sendToolResponse_after_def setTimeout_def functionResponses_def
      idle_def)
next
  show "matrix_onToolCall ext
     \<lparr>functionCalls =
        [\<lparr>fc_id = ''a'', fc_name = ''no_such_function'', fc_args = no_args\<rparr>,
         \<lparr>fc_id = ''b'', fc_name = ''setDataBlock'',
          fc_args = no_args\<lparr>arg_startRow := Some 0, arg_startCol := Some 0,
                            arg_value := Some [Some [Some ''x'']]\<rparr>\<rparr>]\<rparr>
     \<lparr>data = [[Some '''']], cellStyles = [[Some (JObj [])]], editCell = None,
      render_error = None, gsuspended = [], gloop = idle\<rparr> =
   \<lparr>data = [[Some ''x'']], cellStyles = [[Some (JObj [])]], editCell = None,
    render_error = None, gsuspended = [],
    gloop = idle\<lparr>timers :=
      [(200, SendToolResponseCall
               [\<lparr>response = output_success, fr_id = ''a''\<rparr>,
                \<lparr>response = output_success, fr_id = ''b''\<rparr>])]\<rparr>\<rparr>"
    by (simp add: matrix_onToolCall_def matrix_callback_def geminiAsAToolDecl_def
      setDataBlockDecl_def setStylesBlockDecl_def getDataBlockDecl_def getStyleBlockDecl_def
      setData_def setMatrixBlock_args_def
      sendToolResponse_def sendToolResponse_after_def setTimeout_def functionResponses_def
      idle_def set_one)
qed

subsection \<open>The callbacks that wait\<close>

text \<open>
  Nothing is sent for \<open>ls\<close> before its promise is fulfilled, and then the batch is
  answered with the list; a rejected promise leaves the batch without an answer. In a
  batch of \<open>ls\<close> and \<open>render_html\<close> the timer of \<open>render_html\<close> is registered first,
  whatever the order of the batch.
\<close>

lemma ls_then_render_html:
  "memento_settle 0 (Fulfilled files)
     (memento_onToolCall
        \<lparr>functionCalls =
           [\<lparr>fc_id = ''a'', fc_name = ''ls'', fc_args = no_args\<rparr>,
            \<lparr>fc_id = ''b'', fc_name = ''render_html'',
             fc_args = no_args\<lparr>arg_htmlText := Some ''hi''\<rparr>\<rparr>]\<rparr>
        \<lparr>htmlString = Some '''', msuspended = [], mloop = idle\<rparr>) =
   \<lparr>htmlString = Some ''hi'', msuspended = [],
    mloop = idle\<lparr>timers :=
      [(200, SendToolResponseCall
               [\<lparr>response = success, fr_id = ''a''\<rparr>,
                \<lparr>response = success, fr_id = ''b''\<rparr>]),
       (200, SendToolResponseCall
               [\<lparr>response = JObj [(''files'', files)], fr_id = ''a''\<rparr>,
                \<lparr>response = JObj [(''files'', files)], fr_id = ''b''\<rparr>])]\<rparr>\<rparr>"
  by (simp add: memento_settle_def settle_def memento_onToolCall_def memento_callback_def
      renderHtmlDeclaration_def lsDeclaration_def writeToDeclaration_def
      readTxtFileDeclaration_def sendToolResponse_def sendToolResponse_after_def setTimeout_def
      functionResponses_def idle_def)

lemma rejected_sends_nothing:
  "mloop (memento_settle k Rejected st) = mloop st \<and>
   gloop (matrix_settle k Rejected st') = gloop st'"
  by (simp add: memento_settle_def matrix_settle_def settle_def)

text \<open>
  A call of \<open>render_html\<close> without the property \<open>htmlText\<close> sets \<open>htmlString\<close> to
  \<open>undefined\<close> and answers with success.
\<close>

lemma render_html_without_htmlText:
  "memento_onToolCall
     \<lparr>functionCalls = [\<lparr>fc_id = ''a'', fc_name = ''render_html'', fc_args = no_args\<rparr>]\<rparr>
     \<lparr>htmlString = Some '''', msuspended = [], mloop = idle\<rparr> =
   \<lparr>htmlString = None, msuspended = [],
    mloop = idle\<lparr>timers :=
      [(200, SendToolResponseCall [\<lparr>response = success, fr_id = ''a''\<rparr>])]\<rparr>\<rparr>"
  by (simp add: memento_onToolCall_def memento_callback_def renderHtmlDeclaration_def
      no_args_def sendToolResponse_def sendToolResponse_after_def setTimeout_def
      functionResponses_def idle_def)

section \<open>Properties of the tool-call correlator\<close>

lemma fold_mark: "i \<in> fc_id ` set fcs \<Longrightarrow> fold (\<lambda>fc m. m(fc_id fc \<mapsto> s)) fcs m i = Some s"
proof (induction fcs arbitrary: m rule: rev_induct)
  case Nil
  then show ?case by simp
next
  case (snoc fc fcs)
  then show ?case by (cases "fc_id fc = i") auto
qed

lemma one_entry_per_id:
  "distinct (map fc_id fcs) \<Longrightarrow> i \<in> fc_id ` set fcs \<Longrightarrow>
   length (filter (\<lambda>r. fr_id r = i) (map (\<lambda>fc. \<lparr>response = p, fr_id = fc_id fc\<rparr>) fcs)) = 1"
proof (induction fcs)
  case Nil
  then show ?case by simp
next
  case (Cons fc fcs)
  show ?case
  proof (cases "fc_id fc = i")
    case True
    with Cons.prems(1) have "i \<notin> fc_id ` set fcs" by auto
    then have "filter (\<lambda>r. fr_id r = i) (map (\<lambda>fc. \<lparr>response = p, fr_id = fc_id fc\<rparr>) fcs) = []"
      by (auto simp: filter_empty_conv)
    with True show ?thesis by simp
  next
    case False
    with Cons show ?thesis by auto
  qed
qed

subsection \<open>Claim C1: one respond answers, a second one fails\<close>

text \<open>
  Claim C1. After a ToolCall batch has arrived, every invocation id \<open>i\<close> of the batch
  is Pending. One \<open>respond\<close> on \<open>i\<close> succeeds, makes \<open>i\<close> Answered and sends exactly
  one toolResponse entry, the one for \<open>i\<close>; a second \<open>respond\<close> on \<open>i\<close> fails with
  UnknownInvocationError and leaves the correlator as it was. On the side of the
  components: the list that one call of sendToolResponse builds for a batch of distinct
  ids holds exactly one entry for \<open>i\<close>.
\<close>

theorem respond_once_then_unknown:
  assumes "i \<in> fc_id ` set (functionCalls toolCall)"
  shows "invocations (mark_pending toolCall c) i = Some Pending \<and>
    (\<exists>c1. respond i payload (mark_pending toolCall c) = (None, c1) \<and>
          invocations c1 i = Some Answered \<and>
          toolResponses c1 = toolResponses c @ [\<lparr>response = payload, fr_id = i\<rparr>] \<and>
          respond i payload' c1 = (Some UnknownInvocationError, c1)) \<and>
    (distinct (map fc_id (functionCalls toolCall)) \<longrightarrow>
       length (filter (\<lambda>r. fr_id r = i) (functionResponses toolCall payload)) = 1)"
proof -
  have p: "invocations (mark_pending toolCall c) i = Some Pending"
    using assms by (simp add: mark_pending_def fold_mark)
  let ?c1 = "(mark_pending toolCall c)\<lparr>invocations := (invocations (mark_pending toolCall c))(i \<mapsto> Answered),
             toolResponses := toolResponses (mark_pending toolCall c) @ [\<lparr>response = payload, fr_id = i\<rparr>]\<rparr>"
  have r1: "respond i payload (mark_pending toolCall c) = (None, ?c1)"
    using p by (simp add: respond_def)
  have a: "invocations ?c1 i = Some Answered" by simp
  have t: "toolResponses ?c1 = toolResponses c @ [\<lparr>response = payload, fr_id = i\<rparr>]"
    by (simp add: mark_pending_def)
  have r2: "respond i payload' ?c1 = (Some UnknownInvocationError, ?c1)"
    by (simp add: respond_def)
  have h: "distinct (map fc_id (functionCalls toolCall)) \<longrightarrow>
       length (filter (\<lambda>r. fr_id r = i) (functionResponses toolCall payload)) = 1"
    unfolding functionResponses_def using assms by (intro impI one_entry_per_id)
  from p r1 a t r2 h show ?thesis by blast
qed

theorem respond_once_then_unknown_witness:
  "invocations (mark_pending \<lparr>functionCalls =
        [\<lparr>fc_id = ''a'', fc_name = ''f'', fc_args = no_args\<rparr>,
         \<lparr>fc_id = ''b'', fc_name = ''g'', fc_args = no_args\<rparr>]\<rparr>
      \<lparr>invocations = Map.empty, toolResponses = []\<rparr>) ''a'' = Some Pending \<and>
   (\<exists>c1. respond ''a'' (JNum 42) (mark_pending \<lparr>functionCalls =
        [\<lparr>fc_id = ''a'', fc_name = ''f'', fc_args = no_args\<rparr>,
         \<lparr>fc_id = ''b'', fc_name = ''g'', fc_args = no_args\<rparr>]\<rparr>
      \<lparr>invocations = Map.empty, toolResponses = []\<rparr>) = (None, c1) \<and>
          invocations c1 ''a'' = Some Answered \<and>
          toolResponses c1 = toolResponses \<lparr>invocations = Map.empty, toolResponses = []\<rparr> @
             [\<lparr>response = JNum 42, fr_id = ''a''\<rparr>] \<and>
          respond ''a'' (JNum 7) c1 = (Some UnknownInvocationError, c1)) \<and>
   length (filter (\<lambda>r. fr_id r = ''a'') (functionResponses \<lparr>functionCalls =
        [\<lparr>fc_id = ''a'', fc_name = ''f'', fc_args = no_args\<rparr>,
         \<lparr>fc_id = ''b'', fc_name = ''g'', fc_args = no_args\<rparr>]\<rparr> (JNum 42))) = 1"
proof -
  let ?tc = "\<lparr>functionCalls =
        [\<lparr>fc_id = ''a'', fc_name = ''f'', fc_args = no_args\<rparr>,
         \<lparr>fc_id = ''b'', fc_name = ''g'', fc_args = no_args\<rparr>]\<rparr>"
  have h: "''a'' \<in> fc_id ` set (functionCalls ?tc)" by simp
  have d: "distinct (map fc_id (functionCalls ?tc))" by simp
  note c = respond_once_then_unknown[OF h, of "\<lparr>invocations = Map.empty, toolResponses = []\<rparr>"
      "JNum 42" "JNum 7"]
  note c1 = c[THEN conjunct1]
  note c2 = c[THEN conjunct2, THEN conjunct1]
  note c3 = c[THEN conjunct2, THEN conjunct2, THEN mp, OF d]
  show ?thesis by (intro conjI c1 c2 c3)
qed

section \<open>Properties of the effects\<close>





subsection \<open>Claim C5: when the configuration is supplied\<close>




section \<open>Properties of the codec\<close>

lemma type_of_name_type_name: "type_of_name (type_name t) = Some t"
  by (cases t) (simp_all add: type_of_name_def)

lemma decode_list_map:
  "(\<And>x. x \<in> set xs \<Longrightarrow> dec (enc x) = Inr x) \<Longrightarrow> decode_list dec (map enc xs) = Inr xs"
  by (induction xs) simp_all

lemma decode_string_JStr: "decode_string (Some (JStr s)) = Inr s"
  by (simp add: decode_string_def)

lemma decode_strings: "decode_list (\<lambda>r. decode_string (Some r)) (map JStr rs) = Inr rs"
  by (rule decode_list_map) (rule decode_string_JStr)

lemma decode_properties_map:
  "(\<And>k s. (k, s) \<in> set props \<Longrightarrow> decode_schema (encode_schema s) = Inr s) \<Longrightarrow>
   decode_properties (map (\<lambda>(k, s). (k, encode_schema s)) props) = Inr props"
proof (induction props)
  case Nil
  show ?case by simp
next
  case (Cons p props)
  obtain k s where p: "p = (k, s)" by (cases p)
  from Cons.prems[of k s] p have a: "decode_schema (encode_schema s) = Inr s" by simp
  have "decode_properties (map (\<lambda>(k, s). (k, encode_schema s)) props) = Inr props"
  proof (rule Cons.IH)
    fix k' s' assume "(k', s') \<in> set props"
    then have "(k', s') \<in> set (p # props)" by simp
    then show "decode_schema (encode_schema s') = Inr s'" by (rule Cons.prems)
  qed
  with a p show ?case by simp
qed

lemma decode_encode_schema: "decode_schema (encode_schema s) = Inr s"
proof (induction s)
  case (SchemaPrim t d)
  show ?case
    by (subst decode_schema.simps)
       (simp add: decode_string_def decode_opt_string_def opt_field_def type_of_name_type_name
          split: option.splits)
next
  case (SchemaArray s d)
  have t: "type_of_name ''ARRAY'' = Some ARRAY" by (simp add: type_of_name_def)
  show ?case
    by (subst decode_schema.simps)
       (simp add: decode_string_def decode_opt_string_def opt_field_def t SchemaArray.IH
          split: option.splits)
next
  case (SchemaObject props req)
  have t: "type_of_name ''OBJECT'' = Some OBJECT" by (simp add: type_of_name_def)
  have ps: "decode_properties (map (\<lambda>(k, s). (k, encode_schema s)) props) = Inr props"
  proof (rule decode_properties_map)
    fix k s assume "(k, s) \<in> set props"
    then show "decode_schema (encode_schema s) = Inr s"
      using SchemaObject.IH[of "(k, s)" s] by simp
  qed
  show ?case
    by (subst decode_schema.simps)
       (simp add: decode_string_JStr opt_field_def t ps decode_strings split: option.splits)
qed

lemma decode_encode_declaration: "decode_declaration (encode_declaration d) = Inr d"
  by (simp add: decode_declaration_def encode_declaration_def decode_string_def
      decode_encode_schema)

lemma decode_encode_tool: "decode_tool (encode_tool t) = Inr t"
proof (cases t)
  case GoogleSearch
  then show ?thesis by (simp add: decode_tool_def)
next
  case CodeExecution
  then show ?thesis by (simp add: decode_tool_def)
next
  case (FunctionDeclarations ds)
  have "decode_list decode_declaration (map encode_declaration ds) = Inr ds"
    by (rule decode_list_map) (rule decode_encode_declaration)
  with FunctionDeclarations show ?thesis by (simp add: decode_tool_def)
qed

lemma decode_encode_generationConfig:
  "decode_generationConfig (encode_generationConfig g) = Inr g"
  by (cases "voiceName g"; cases "maxOutputTokens g")
     (simp_all add: decode_generationConfig_def encode_generationConfig_def decode_string_def
        decode_voice_def decode_opt_int_def opt_field_def)

subsection \<open>Claim C7: the round trip of the Configuration\<close>

text \<open>
  Claim C7. Decoding the \<open>setup\<close> frame that encodes a Configuration succeeds and
  gives back that Configuration, field by field.
\<close>

theorem setup_round_trip: "decode_setup (encode_setup c) = Inr c"
proof -
  have ts: "decode_list decode_tool (map encode_tool (tools c)) = Inr (tools c)"
    by (rule decode_list_map) (rule decode_encode_tool)
  show ?thesis
    by (simp add: decode_setup_def encode_setup_def decode_config_def encode_config_def
        decode_string_def decode_instruction_def decode_encode_generationConfig ts)
qed

theorem setup_round_trip_witness:
  "decode_setup (encode_setup memento_config) = Inr memento_config \<and>
   decode_setup (encode_setup matrix_config) = Inr matrix_config"
  using setup_round_trip [of memento_config] setup_round_trip [of matrix_config]
  by (intro conjI)

end
